theory Spec2Isabelle
  imports Main
begin

section \<open>Python values used by the parsers\<close>

text \<open>
  The exceptions the modelled functions can raise. A function that can raise returns
  \<open>py_error + 'a\<close>, with \<open>Inl\<close> for the exception.
\<close>

datatype py_error = RuntimeError | TypeError | ValueError | KeyError | IndexError | AttributeError

definition bindE :: "py_error + 'a \<Rightarrow> ('a \<Rightarrow> py_error + 'b) \<Rightarrow> py_error + 'b" where
  "bindE r f = (case r of Inl e \<Rightarrow> Inl e | Inr v \<Rightarrow> f v)"

text \<open>
  Strings are character lists. \<open>str.isspace\<close>, \<open>str.strip\<close>, \<open>str.lower\<close>,
  slicing, indexing and \<open>str.startswith\<close> are written out for ASCII text, which is what
  both file formats hold.
\<close>

definition whitespace :: "char list" where
  "whitespace = [CHR 0x09, CHR 0x0A, CHR 0x0B, CHR 0x0C, CHR 0x0D,
                 CHR 0x1C, CHR 0x1D, CHR 0x1E, CHR 0x1F, CHR '' '']"

definition is_space :: "char \<Rightarrow> bool" where
  "is_space c = (c \<in> set whitespace)"

definition strip :: "string \<Rightarrow> string" where
  "strip s = rev (dropWhile is_space (rev (dropWhile is_space s)))"

definition lower_char :: "char \<Rightarrow> char" where
  "lower_char c =
     (case map_of (zip ''ABCDEFGHIJKLMNOPQRSTUVWXYZ'' ''abcdefghijklmnopqrstuvwxyz'') c of
        None \<Rightarrow> c
      | Some d \<Rightarrow> d)"

definition lower :: "string \<Rightarrow> string" where
  "lower s = map lower_char s"

text \<open>\<open>s[i:j]\<close> for non-negative \<open>i\<close>, \<open>j\<close>: never raises, shorter when the string is.\<close>

definition slice :: "nat \<Rightarrow> nat \<Rightarrow> string \<Rightarrow> string" where
  "slice i j s = take (j - i) (drop i s)"

text \<open>\<open>s[i]\<close> for a non-negative \<open>i\<close>: a one-character string, or IndexError.\<close>

definition char_at :: "string \<Rightarrow> nat \<Rightarrow> py_error + string" where
  "char_at s i = (if i < length s then Inr [s ! i] else Inl IndexError)"

definition startswith :: "string \<Rightarrow> string \<Rightarrow> bool" where
  "startswith s p = (take (length p) s = p)"

text \<open>
  \<open>int(s)\<close> on an ASCII string: the whitespace \<open>int\<close> skips on both sides is tab,
  line feed, vertical tab, form feed, carriage return and space (not the separators
  0x1C to 0x1F, which \<open>str.strip\<close> removes); one sign is allowed, then decimal digits,
  with single underscores between digits. A string of more than 4300 digits
  (\<open>sys.int_info.default_max_str_digits\<close>, leading zeros counted, underscores not) is
  refused. \<open>None\<close> is ValueError.
\<close>

definition int_whitespace :: "char list" where
  "int_whitespace = [CHR 0x09, CHR 0x0A, CHR 0x0B, CHR 0x0C, CHR 0x0D, CHR '' '']"

definition is_int_space :: "char \<Rightarrow> bool" where
  "is_int_space c = (c \<in> set int_whitespace)"

definition int_strip :: "string \<Rightarrow> string" where
  "int_strip s = rev (dropWhile is_int_space (rev (dropWhile is_int_space s)))"

definition int_max_str_digits :: nat where
  "int_max_str_digits = 4300"

definition is_digit :: "char \<Rightarrow> bool" where
  "is_digit c = (c \<in> set ''0123456789'')"

definition digit_val :: "char \<Rightarrow> nat" where
  "digit_val c = length (takeWhile (\<lambda>d. d \<noteq> c) ''0123456789'')"

fun py_digits :: "nat \<Rightarrow> bool \<Rightarrow> string \<Rightarrow> nat option" where
  "py_digits acc prev_digit [] = (if prev_digit then Some acc else None)"
| "py_digits acc prev_digit (c # cs) =
     (if is_digit c then py_digits (10 * acc + digit_val c) True cs
      else if c = CHR ''_'' \<and> prev_digit then py_digits acc False cs
      else None)"

definition py_unsigned :: "string \<Rightarrow> nat option" where
  "py_unsigned cs =
     (if int_max_str_digits < length (filter is_digit cs) then None else py_digits 0 False cs)"

definition py_int :: "string \<Rightarrow> int option" where
  "py_int s =
     (case int_strip s of
        [] \<Rightarrow> None
      | c # cs \<Rightarrow>
          if c = CHR ''-'' then map_option (\<lambda>n. - int n) (py_unsigned cs)
          else if c = CHR ''+'' then map_option int (py_unsigned cs)
          else map_option int (py_unsigned (c # cs)))"

section \<open>Data model\<close>

text \<open>
  Modelled from the spec: the classes of \<open>eltetrado.model\<close> (ResidueLabel, ResidueAuth,
  Atom3D, Residue3D, Structure3D), which the parsers construct positionally. The fields
  follow the data model of the specification and the constructor calls of
  \<open>structure.py\<close>; each field name carries the class as a prefix. Objects of these
  classes are keys of the modification table and elements of a residue's atom set, so
  they are compared field by field. Coordinates are Python floats; their type is the
  parameter \<open>'c\<close>, compared by value (a coordinate that is not a number is outside the
  model).
\<close>

record ResidueLabel =
  label_chain :: string
  label_number :: int
  label_name :: string

record ResidueAuth =
  auth_chain :: string
  auth_number :: int
  auth_icode :: string
  auth_name :: string

record 'c Atom3D =
  atom_label :: "ResidueLabel option"
  atom_auth :: "ResidueAuth option"
  atom_model :: int
  atom_name :: string
  atom_x :: 'c
  atom_y :: 'c
  atom_z :: 'c

record 'c Residue3D =
  res_index :: int
  res_name :: string
  res_model :: int
  res_label :: "ResidueLabel option"
  res_auth :: "ResidueAuth option"
  res_atoms :: "'c Atom3D set"

record 'c Structure3D =
  residues :: "'c Residue3D list"

text \<open>
  The modification table is one Python dict whose keys are ResidueLabel objects,
  ResidueAuth objects and, since \<open>parse_cif\<close> stores under whatever \<open>label\<close> and \<open>auth\<close>
  hold, \<open>None\<close>. Objects of the two classes are never equal to each other.
\<close>

datatype reskey = KNone | KLabel ResidueLabel | KAuth ResidueAuth

type_synonym modification_table = "reskey \<rightharpoonup> string"

definition label_key :: "ResidueLabel option \<Rightarrow> reskey" where
  "label_key l = (case l of None \<Rightarrow> KNone | Some v \<Rightarrow> KLabel v)"

definition auth_key :: "ResidueAuth option \<Rightarrow> reskey" where
  "auth_key a = (case a of None \<Rightarrow> KNone | Some v \<Rightarrow> KAuth v)"

section \<open>Residue names\<close>

text \<open>
  \<open>get_residue_name(auth, label, modified)\<close>. \<open>auth in modified\<close> is a dict lookup
  with the object (or \<open>None\<close>) as key; \<open>elif auth\<close> tests that it is not \<open>None\<close>.
\<close>

definition get_residue_name ::
  "ResidueAuth option \<Rightarrow> ResidueLabel option \<Rightarrow> modification_table \<Rightarrow> string" where
  "get_residue_name auth label modified =
     (if auth_key auth \<in> dom modified then lower (the (modified (auth_key auth)))
      else if label_key label \<in> dom modified then lower (the (modified (label_key label)))
      else if auth \<noteq> None then auth_name (the auth)
      else if label \<noteq> None then label_name (the label)
      else ''n'')"

section \<open>Grouping atoms into residues\<close>

text \<open>The key of an atom in \<open>group_atoms\<close>: \<open>(atom.label, atom.auth, atom.model)\<close>.\<close>

definition atom_key :: "'c Atom3D \<Rightarrow> ResidueLabel option \<times> ResidueAuth option \<times> int" where
  "atom_key atom = (atom_label atom, atom_auth atom, atom_model atom)"

text \<open>
  The residue appended when a run closes: the three components of \<open>key_previous\<close>, the
  resolved name, and \<open>frozenset(residue_atoms)\<close>.
\<close>

definition close_residue ::
  "modification_table \<Rightarrow> int \<Rightarrow> ResidueLabel option \<times> ResidueAuth option \<times> int \<Rightarrow>
   'c Atom3D list \<Rightarrow> 'c Residue3D" where
  "close_residue modified index key_previous residue_atoms =
     (let label = fst key_previous;
          auth = fst (snd key_previous);
          model = snd (snd key_previous);
          name = get_residue_name auth label modified
      in \<lparr>res_index = index, res_name = name, res_model = model, res_label = label,
          res_auth = auth, res_atoms = set residue_atoms\<rparr>)"

text \<open>
  The loop over \<open>atoms[1:]\<close>, with its four variables as arguments; the last equation
  is the code after the loop.
\<close>

fun group_loop ::
  "modification_table \<Rightarrow> ResidueLabel option \<times> ResidueAuth option \<times> int \<Rightarrow> 'c Atom3D list \<Rightarrow>
   'c Residue3D list \<Rightarrow> int \<Rightarrow> 'c Atom3D list \<Rightarrow> 'c Residue3D list" where
  "group_loop modified key_previous residue_atoms rs index [] =
     rs @ [close_residue modified index key_previous residue_atoms]"
| "group_loop modified key_previous residue_atoms rs index (atom # rest) =
     (if atom_key atom = key_previous
      then group_loop modified key_previous (residue_atoms @ [atom]) rs index rest
      else group_loop modified (atom_key atom) [atom]
             (rs @ [close_residue modified index key_previous residue_atoms]) (index + 1) rest)"

definition group_atoms :: "'c Atom3D list \<Rightarrow> modification_table \<Rightarrow> 'c Structure3D" where
  "group_atoms atoms modified =
     (case atoms of
        [] \<Rightarrow> \<lparr>residues = []\<rparr>
      | a # rest \<Rightarrow> \<lparr>residues = group_loop modified (atom_key a) [a] [] 1 rest\<rparr>)"

section \<open>The tag-based parser\<close>

text \<open>
  \<open>parse_cif\<close> reads the file through \<open>mmcif.io.IoAdapter\<close>, a library outside the
  repository. Its result is the input of the model: a list of data containers, of which
  the code uses the first, and there the categories \<open>atom_site\<close> and
  \<open>pdbx_struct_mod_residue\<close> (\<open>getObj\<close> gives \<open>None\<close> for a category the file lacks).
  A category has an attribute list and rows of strings. A category object is a list of
  its rows, so \<open>if atom_site:\<close> is false for \<open>None\<close> and for a category with no row; a
  loop over no row does nothing, so the model only distinguishes \<open>None\<close>.
\<close>

record category =
  attribute_list :: "string list"
  row_list :: "string list list"

record container =
  atom_site :: "category option"
  pdbx_struct_mod_residue :: "category option"

text \<open>\<open>dict(zip(attributes, row))\<close>: the shorter list bounds the zip, a later pair wins.\<close>

definition row_dict :: "string list \<Rightarrow> string list \<Rightarrow> (string \<rightharpoonup> string)" where
  "row_dict attrs row = map_of (rev (zip attrs row))"

text \<open>\<open>d[k]\<close>, \<open>int(s)\<close> and \<open>float(s)\<close> as they raise. Python's \<open>float\<close> is the
  parameter \<open>py_float\<close>: \<open>None\<close> where \<open>float(s)\<close> raises ValueError.\<close>

definition getitem :: "(string \<rightharpoonup> string) \<Rightarrow> string \<Rightarrow> py_error + string" where
  "getitem d k = (case d k of None \<Rightarrow> Inl KeyError | Some v \<Rightarrow> Inr v)"

definition int_of :: "string \<Rightarrow> py_error + int" where
  "int_of s = (case py_int s of None \<Rightarrow> Inl ValueError | Some n \<Rightarrow> Inr n)"

definition float_of :: "(string \<Rightarrow> 'c option) \<Rightarrow> string \<Rightarrow> py_error + 'c" where
  "float_of py_float s = (case py_float s of None \<Rightarrow> Inl ValueError | Some v \<Rightarrow> Inr v)"

text \<open>
  \<open>try_parse_int\<close> catches ValueError only: \<open>int(None)\<close> raises TypeError, which
  leaves the function.
\<close>

definition try_parse_int :: "string option \<Rightarrow> py_error + int option" where
  "try_parse_int s = (case s of None \<Rightarrow> Inl TypeError | Some t \<Rightarrow> Inr (py_int t))"

text \<open>
  The construction of \<open>label\<close> and of \<open>auth\<close>, which the source writes twice (lines
  67 to 73 for atom rows, 94 to 100 for modified-residue rows).
\<close>

definition make_label :: "string option \<Rightarrow> int option \<Rightarrow> string option \<Rightarrow> ResidueLabel option" where
  "make_label label_chain_name label_residue_number label_residue_name =
     (if label_chain_name \<noteq> None \<and> label_residue_number \<noteq> None \<and> label_residue_name \<noteq> None
      then Some \<lparr>label_chain = the label_chain_name, label_number = the label_residue_number,
                 label_name = the label_residue_name\<rparr>
      else None)"

definition make_auth ::
  "string option \<Rightarrow> int option \<Rightarrow> string option \<Rightarrow> string option \<Rightarrow> ResidueAuth option" where
  "make_auth auth_chain_name auth_residue_number auth_residue_name insertion_code =
     (if auth_chain_name \<noteq> None \<and> auth_residue_number \<noteq> None \<and> auth_residue_name \<noteq> None
         \<and> insertion_code \<noteq> None
      then Some \<lparr>auth_chain = the auth_chain_name, auth_number = the auth_residue_number,
                 auth_icode = the insertion_code, auth_name = the auth_residue_name\<rparr>
      else None)"

text \<open>The body of the loop over the rows of \<open>atom_site\<close> (lines 50 to 80).\<close>

definition parse_atom_row ::
  "(string \<Rightarrow> 'c option) \<Rightarrow> string list \<Rightarrow> string list \<Rightarrow> py_error + 'c Atom3D" where
  "parse_atom_row py_float attrs row =
     (let d = row_dict attrs row;
          label_chain_name = d ''label_asym_id''
      in bindE (try_parse_int (d ''label_seq_id'')) (\<lambda>label_residue_number.
         let label_residue_name = d ''label_comp_id'';
             auth_chain_name = d ''auth_asym_id''
         in bindE (try_parse_int (d ''auth_seq_id'')) (\<lambda>auth_residue_number.
            let auth_residue_name = d ''auth_comp_id'';
                insertion_code = d ''pdbx_PDB_ins_code''
            in if label_chain_name = None \<and> auth_chain_name = None then Inl RuntimeError
               else if label_residue_number = None \<and> auth_residue_number = None then Inl RuntimeError
               else if label_residue_name = None \<and> auth_residue_name = None then Inl RuntimeError
               else
                 let label = make_label label_chain_name label_residue_number label_residue_name;
                     auth = make_auth auth_chain_name auth_residue_number auth_residue_name
                              insertion_code
                 in bindE (int_of (case d ''pdbx_PDB_model_num'' of None \<Rightarrow> ''1'' | Some v \<Rightarrow> v))
                      (\<lambda>model.
                    bindE (getitem d ''label_atom_id'') (\<lambda>atom_name.
                    bindE (bindE (getitem d ''Cartn_x'') (float_of py_float)) (\<lambda>x.
                    bindE (bindE (getitem d ''Cartn_y'') (float_of py_float)) (\<lambda>y.
                    bindE (bindE (getitem d ''Cartn_z'') (float_of py_float)) (\<lambda>z.
                    Inr \<lparr>atom_label = label, atom_auth = auth, atom_model = model,
                         atom_name = atom_name, atom_x = x, atom_y = y, atom_z = z\<rparr>))))))))"

fun parse_atom_rows ::
  "(string \<Rightarrow> 'c option) \<Rightarrow> string list \<Rightarrow> string list list \<Rightarrow> 'c Atom3D list \<Rightarrow>
   py_error + 'c Atom3D list" where
  "parse_atom_rows py_float attrs [] atoms = Inr atoms"
| "parse_atom_rows py_float attrs (row # rows) atoms =
     bindE (parse_atom_row py_float attrs row)
       (\<lambda>atom. parse_atom_rows py_float attrs rows (atoms @ [atom]))"

text \<open>
  The body of the loop over the rows of \<open>pdbx_struct_mod_residue\<close> (lines 84 to 107).
  The source zips each row with \<open>atom_site.getAttributeList()\<close>, the attribute list of
  the atom table, and reads the insertion code from \<open>PDB_ins_code\<close>; it makes no check
  of the identifiers and stores under both \<open>label\<close> and \<open>auth\<close>, whatever they hold.
\<close>

definition parse_mod_row ::
  "string list \<Rightarrow> string list \<Rightarrow> modification_table \<Rightarrow> py_error + modification_table" where
  "parse_mod_row attrs row modified =
     (let d = row_dict attrs row;
          label_chain_name = d ''label_asym_id''
      in bindE (try_parse_int (d ''label_seq_id'')) (\<lambda>label_residue_number.
         let label_residue_name = d ''label_comp_id'';
             auth_chain_name = d ''auth_asym_id''
         in bindE (try_parse_int (d ''auth_seq_id'')) (\<lambda>auth_residue_number.
            let auth_residue_name = d ''auth_comp_id'';
                insertion_code = d ''PDB_ins_code'';
                label = make_label label_chain_name label_residue_number label_residue_name;
                auth = make_auth auth_chain_name auth_residue_number auth_residue_name
                         insertion_code;
                standard_residue_name = (case d ''parent_comp_id'' of None \<Rightarrow> ''n'' | Some v \<Rightarrow> v)
            in Inr (modified(label_key label \<mapsto> standard_residue_name,
                             auth_key auth \<mapsto> standard_residue_name)))))"

fun parse_mod_rows ::
  "category option \<Rightarrow> string list list \<Rightarrow> modification_table \<Rightarrow> py_error + modification_table" where
  "parse_mod_rows atom_site_obj [] modified = Inr modified"
| "parse_mod_rows atom_site_obj (row # rows) modified =
     (case atom_site_obj of
        None \<Rightarrow> Inl AttributeError
      | Some cat \<Rightarrow>
          bindE (parse_mod_row (attribute_list cat) row modified)
            (parse_mod_rows atom_site_obj rows))"

definition parse_cif ::
  "(string \<Rightarrow> 'c option) \<Rightarrow> container list \<Rightarrow> py_error + ('c Atom3D list \<times> modification_table)" where
  "parse_cif py_float data =
     (case data of
        [] \<Rightarrow> Inr ([], Map.empty)
      | d0 # _ \<Rightarrow>
          bindE (case atom_site d0 of
                   None \<Rightarrow> Inr []
                 | Some cat \<Rightarrow> parse_atom_rows py_float (attribute_list cat) (row_list cat) [])
            (\<lambda>atoms.
          bindE (case pdbx_struct_mod_residue d0 of
                   None \<Rightarrow> Inr Map.empty
                 | Some cat \<Rightarrow> parse_mod_rows (atom_site d0) (row_list cat) Map.empty)
            (\<lambda>modified. Inr (atoms, modified))))"

section \<open>The fixed-column parser\<close>

text \<open>
  The state of the loop over the lines: the current model, the atoms and the
  modification table. A line is a string as \<open>readlines\<close> gives it.
\<close>

type_synonym 'c pdb_state = "int \<times> 'c Atom3D list \<times> modification_table"

definition pdb_line ::
  "(string \<Rightarrow> 'c option) \<Rightarrow> string \<Rightarrow> 'c pdb_state \<Rightarrow> py_error + 'c pdb_state" where
  "pdb_line py_float line st =
     (case st of (model, atoms, modified) \<Rightarrow>
        if startswith line ''MODEL'' then
          bindE (int_of (strip (slice 10 14 line))) (\<lambda>m. Inr (m, atoms, modified))
        else if startswith line ''ATOM'' \<or> startswith line ''HETATM'' then
          bindE (char_at line 16) (\<lambda>alternate_location.
            if alternate_location \<noteq> '' '' then Inr (model, atoms, modified)
            else
              let atom_name = strip (slice 12 16 line);
                  residue_name = strip (slice 18 20 line)
              in bindE (char_at line 21) (\<lambda>chain_identifier.
                 bindE (int_of (strip (slice 22 26 line))) (\<lambda>residue_number.
                 bindE (char_at line 26) (\<lambda>insertion_code.
                 bindE (float_of py_float (strip (slice 30 38 line))) (\<lambda>x.
                 bindE (float_of py_float (strip (slice 38 46 line))) (\<lambda>y.
                 bindE (float_of py_float (strip (slice 46 54 line))) (\<lambda>z.
                 let auth = \<lparr>auth_chain = chain_identifier, auth_number = residue_number,
                              auth_icode = insertion_code, auth_name = residue_name\<rparr>
                 in Inr (model,
                         atoms @ [\<lparr>atom_label = None, atom_auth = Some auth, atom_model = model,
                                   atom_name = atom_name, atom_x = x, atom_y = y, atom_z = z\<rparr>],
                         modified))))))))
        else if startswith line ''MODRES'' then
          let original_name = slice 12 15 line
          in bindE (char_at line 16) (\<lambda>chain_identifier.
             bindE (int_of (strip (slice 18 22 line))) (\<lambda>residue_number.
             bindE (char_at line 23) (\<lambda>insertion_code.
             let standard_residue_name = strip (slice 24 27 line);
                 auth = \<lparr>auth_chain = chain_identifier, auth_number = residue_number,
                          auth_icode = insertion_code, auth_name = original_name\<rparr>
             in Inr (model, atoms, modified(KAuth auth \<mapsto> standard_residue_name)))))
        else Inr (model, atoms, modified))"

fun pdb_lines ::
  "(string \<Rightarrow> 'c option) \<Rightarrow> string list \<Rightarrow> 'c pdb_state \<Rightarrow> py_error + 'c pdb_state" where
  "pdb_lines py_float [] st = Inr st"
| "pdb_lines py_float (line # rest) st = bindE (pdb_line py_float line st) (pdb_lines py_float rest)"

definition parse_pdb ::
  "(string \<Rightarrow> 'c option) \<Rightarrow> string list \<Rightarrow> py_error + ('c Atom3D list \<times> modification_table)" where
  "parse_pdb py_float lines =
     bindE (pdb_lines py_float lines (1, [], Map.empty))
       (\<lambda>st. case st of (model, atoms, modified) \<Rightarrow> Inr (atoms, modified))"

section \<open>Reading a structure\<close>

text \<open>
  The file handle \<open>cif_or_pdb\<close>: its lines, and what \<open>IoAdapter().readFile\<close> returns for
  its name.
\<close>

record text_io =
  file_lines :: "string list"
  file_data :: "container list"

definition is_cif :: "text_io \<Rightarrow> bool" where
  "is_cif cif_or_pdb = list_ex (\<lambda>line. startswith line ''_atom_site'') (file_lines cif_or_pdb)"

definition read_3d_structure ::
  "(string \<Rightarrow> 'c option) \<Rightarrow> text_io \<Rightarrow> int \<Rightarrow> py_error + 'c Structure3D" where
  "read_3d_structure py_float cif_or_pdb model =
     bindE (if is_cif cif_or_pdb then parse_cif py_float (file_data cif_or_pdb)
            else parse_pdb py_float (file_lines cif_or_pdb))
       (\<lambda>r. case r of (atoms, modified) \<Rightarrow>
          Inr (group_atoms (filter (\<lambda>atom. atom_model atom = model) atoms) modified))"

section \<open>Matching a DSSR annotation against the structure\<close>

text \<open>
  \<open>read_secondary_structure_from_dssr\<close> of \<open>cli.py\<close> works on classes of the library
  \<open>rnapolis\<close>. The model takes from it what the function uses: the residue list of the
  structure with the \<open>full_name\<close> of a residue (a parameter), the member map of the
  enumeration \<open>LeontisWesthof\<close> (a parameter, names with their members), the names
  \<open>dir\<close> lists for the enumeration class beside its members (a parameter), and the
  constructors \<open>BasePair\<close>, \<open>Stacking\<close> and \<open>Structure2D\<close>. Of \<open>Structure2D\<close> the two
  lists the function fills are kept; its other arguments are constant and empty.
  \<open>logging.warn\<close> in \<open>match_dssr_name_to_residue\<close> writes a message and changes no value;
  it is left out.
\<close>

record ('r, 'lw) BasePair =
  bp_nt1 :: 'r
  bp_nt2 :: 'r
  bp_lw :: 'lw
  bp_saenger :: "string option"

record 'r Stacking =
  st_nt1 :: 'r
  st_nt2 :: 'r
  st_topology :: "string option"

record ('r, 'lw) Structure2D =
  base_pairs :: "('r, 'lw) BasePair list"
  stackings :: "'r Stacking list"

text \<open>
  The JSON document: a dict that may hold \<open>models\<close>, each a dict that may hold \<open>model\<close>
  and \<open>parameters\<close>; the parameters, and the document itself, may hold \<open>pairs\<close> and
  \<open>stacks\<close>. \<open>None\<close> is an absent key.
\<close>

record dssr_pair =
  pair_nt1 :: "string option"
  pair_nt2 :: "string option"
  pair_LW :: "string option"

record dssr_stack =
  stack_nts_long :: "string option"

record dssr_parameters =
  dssr_pairs :: "dssr_pair list option"
  dssr_stacks :: "dssr_stack list option"

record dssr_result =
  result_model :: "int option"
  result_parameters :: "dssr_parameters option"

record dssr_document =
  doc_models :: "dssr_result list option"
  doc_top :: dssr_parameters

text \<open>\<open>s.split(c)\<close> for a one-character separator: never empty.\<close>

fun py_split :: "char \<Rightarrow> string \<Rightarrow> string list" where
  "py_split c [] = [[]]"
| "py_split c (x # xs) =
     (if x = c then [] # py_split c xs
      else (case py_split c xs of [] \<Rightarrow> [[x]] | w # ws \<Rightarrow> (x # w) # ws))"

definition match_dssr_name_to_residue ::
  "('r \<Rightarrow> string) \<Rightarrow> 'r list \<Rightarrow> string option \<Rightarrow> 'r option" where
  "match_dssr_name_to_residue full_name structure3d nt_id =
     (case nt_id of
        None \<Rightarrow> None
      | Some s \<Rightarrow> find (\<lambda>residue. full_name residue = last (py_split CHR '':'' s)) structure3d)"

text \<open>
  \<open>dir(LeontisWesthof)\<close>: the names of the members together with the names every
  enumeration class lists. Which names these are depends on the Python version, so the
  list is a parameter, \<open>class_names\<close>; \<open>class_names_py3\<close> is the list up to Python 3.10
  and \<open>class_names_py311\<close> the list of Python 3.11 for an enumeration without a mixed-in
  type. Only membership in the result is used.
\<close>

definition class_names_py3 :: "string list" where
  "class_names_py3 = [''__class__'', ''__doc__'', ''__members__'', ''__module__'']"

definition class_names_py311 :: "string list" where
  "class_names_py311 =
     [''__class__'', ''__contains__'', ''__doc__'', ''__getitem__'', ''__init_subclass__'',
      ''__iter__'', ''__len__'', ''__members__'', ''__module__'', ''__name__'', ''__qualname__'']"

definition enum_dir :: "string list \<Rightarrow> (string \<times> 'lw) list \<Rightarrow> string list" where
  "enum_dir class_names members = class_names @ map fst members"

text \<open>
  \<open>LeontisWesthof[lw] if lw in dir(LeontisWesthof) else None\<close>: the subscript looks the
  name up in the member map and raises KeyError for a name that is not a member.
\<close>

definition match_dssr_lw ::
  "string list \<Rightarrow> (string \<times> 'lw) list \<Rightarrow> string option \<Rightarrow> py_error + 'lw option" where
  "match_dssr_lw class_names members lw =
     (case lw of
        None \<Rightarrow> Inr None
      | Some s \<Rightarrow>
          if s \<in> set (enum_dir class_names members)
          then (case map_of members s of None \<Rightarrow> Inl KeyError | Some v \<Rightarrow> Inr (Some v))
          else Inr None)"

text \<open>The selection of the model's parameters (lines 192 to 195): when no entry of
  \<open>models\<close> has the model, \<open>dssr\<close> stays the whole document.\<close>

definition select_parameters :: "dssr_document \<Rightarrow> int \<Rightarrow> dssr_parameters" where
  "select_parameters dssr model =
     (case find (\<lambda>result. result_model result = Some model)
             (case doc_models dssr of None \<Rightarrow> [] | Some ms \<Rightarrow> ms) of
        None \<Rightarrow> doc_top dssr
      | Some result \<Rightarrow>
          (case result_parameters result of
             None \<Rightarrow> \<lparr>dssr_pairs = None, dssr_stacks = None\<rparr>
           | Some ps \<Rightarrow> ps))"

text \<open>The loop over the pairs (lines 197 to 203).\<close>

fun pairs_loop ::
  "('r \<Rightarrow> string) \<Rightarrow> string list \<Rightarrow> (string \<times> 'lw) list \<Rightarrow> 'r list \<Rightarrow> dssr_pair list \<Rightarrow>
   ('r, 'lw) BasePair list \<Rightarrow> py_error + ('r, 'lw) BasePair list" where
  "pairs_loop full_name class_names members structure3d [] bps = Inr bps"
| "pairs_loop full_name class_names members structure3d (pair # rest) bps =
     (let nt1 = match_dssr_name_to_residue full_name structure3d (pair_nt1 pair);
          nt2 = match_dssr_name_to_residue full_name structure3d (pair_nt2 pair)
      in bindE (match_dssr_lw class_names members (pair_LW pair)) (\<lambda>lw.
           pairs_loop full_name class_names members structure3d rest
             (if nt1 \<noteq> None \<and> nt2 \<noteq> None \<and> lw \<noteq> None
              then bps @ [\<lparr>bp_nt1 = the nt1, bp_nt2 = the nt2, bp_lw = the lw, bp_saenger = None\<rparr>]
              else bps)))"

text \<open>The resolved tokens of one stack (lines 206 to 209) and the inner loop over
  \<open>range(1, len(nts))\<close> (lines 210 to 214).\<close>

definition stack_nts :: "('r \<Rightarrow> string) \<Rightarrow> 'r list \<Rightarrow> dssr_stack \<Rightarrow> 'r option list" where
  "stack_nts full_name structure3d stack =
     map (\<lambda>nt. match_dssr_name_to_residue full_name structure3d (Some nt))
       (py_split CHR '','' (case stack_nts_long stack of None \<Rightarrow> [] | Some s \<Rightarrow> s))"

definition stack_relations :: "'r option list \<Rightarrow> 'r Stacking list" where
  "stack_relations nts =
     concat (map (\<lambda>i. let nt1 = nts ! (i - 1); nt2 = nts ! i
                      in if nt1 \<noteq> None \<and> nt2 \<noteq> None
                         then [\<lparr>st_nt1 = the nt1, st_nt2 = the nt2, st_topology = None\<rparr>]
                         else [])
               [1..<length nts])"

fun stacks_loop ::
  "('r \<Rightarrow> string) \<Rightarrow> 'r list \<Rightarrow> dssr_stack list \<Rightarrow> 'r Stacking list \<Rightarrow> 'r Stacking list" where
  "stacks_loop full_name structure3d [] sts = sts"
| "stacks_loop full_name structure3d (stack # rest) sts =
     stacks_loop full_name structure3d rest
       (sts @ stack_relations (stack_nts full_name structure3d stack))"

definition read_secondary_structure_from_dssr ::
  "('r \<Rightarrow> string) \<Rightarrow> string list \<Rightarrow> (string \<times> 'lw) list \<Rightarrow> 'r list \<Rightarrow> int \<Rightarrow>
   dssr_document \<Rightarrow> py_error + ('r, 'lw) Structure2D" where
  "read_secondary_structure_from_dssr full_name class_names members structure3d model dssr_json =
     (let dssr = select_parameters dssr_json model
      in bindE (pairs_loop full_name class_names members structure3d
                  (case dssr_pairs dssr of None \<Rightarrow> [] | Some ps \<Rightarrow> ps) [])
           (\<lambda>bps. Inr \<lparr>base_pairs = bps,
                        stackings = stacks_loop full_name structure3d
                          (case dssr_stacks dssr of None \<Rightarrow> [] | Some ss \<Rightarrow> ss) []\<rparr>))"

section \<open>Predicates on fixed-column lines\<close>

text \<open>
  \<open>is_atom_line\<close> is the test of the second branch of the loop of \<open>parse_pdb\<close>.
  \<open>pdb_inv\<close> is the invariant of that loop used below: every atom comes from an
  ATOM or HETATM line of the file and has its residue name from the slice [18:20) of it,
  stripped; every key of the modification table comes from a MODRES line and has its
  residue name from the slice [12:15) of it, three characters long.
\<close>

definition is_atom_line :: "string \<Rightarrow> bool" where
  "is_atom_line line = (startswith line ''ATOM'' \<or> startswith line ''HETATM'')"

definition pdb_inv :: "string set \<Rightarrow> 'c pdb_state \<Rightarrow> bool" where
  "pdb_inv L st =
     (case st of (model, atoms, modified) \<Rightarrow>
        (\<forall>a \<in> set atoms. atom_label a = None \<and>
           (\<exists>l \<in> L. \<exists>au. is_atom_line l \<and> atom_auth a = Some au \<and>
              auth_name au = strip (slice 18 20 l)))
        \<and> (\<forall>k \<in> dom modified. \<exists>l \<in> L. \<exists>au. startswith l ''MODRES'' \<and> k = KAuth au \<and>
              auth_name au = slice 12 15 l \<and> length (auth_name au) = 3))"

section \<open>Rows of the atom table\<close>

text \<open>
  For the statements about \<open>parse_cif\<close>: the rows of the atom table as dicts, the model
  number a row carries (\<open>int(row_dict.get('pdbx_PDB_model_num', '1'))\<close>), the rows
  parsed one by one, the number of atoms in the atom sets of a structure, the number of
  rows of a model, and the three
  checks of lines 60 to 65 read on a row: the chain name absent on both sides, the
  residue number present on both sides with a text \<open>int\<close> rejects, the residue name
  absent on both sides.
\<close>

definition atom_rows :: "container list \<Rightarrow> (string \<rightharpoonup> string) list" where
  "atom_rows data =
     (case data of
        [] \<Rightarrow> []
      | d0 # _ \<Rightarrow>
          (case atom_site d0 of
             None \<Rightarrow> []
           | Some cat \<Rightarrow> map (row_dict (attribute_list cat)) (row_list cat)))"

definition row_model :: "(string \<rightharpoonup> string) \<Rightarrow> int option" where
  "row_model d = py_int (case d ''pdbx_PDB_model_num'' of None \<Rightarrow> ''1'' | Some v \<Rightarrow> v)"

definition row_atoms :: "(string \<Rightarrow> 'c option) \<Rightarrow> container list \<Rightarrow> (py_error + 'c Atom3D) list" where
  "row_atoms py_float data =
     (case data of
        [] \<Rightarrow> []
      | d0 # _ \<Rightarrow>
          (case atom_site d0 of
             None \<Rightarrow> []
           | Some cat \<Rightarrow> map (parse_atom_row py_float (attribute_list cat)) (row_list cat)))"

definition atom_total :: "'c Structure3D \<Rightarrow> nat" where
  "atom_total s = sum_list (map (\<lambda>r. card (res_atoms r)) (residues s))"

definition model_row_count :: "container list \<Rightarrow> int \<Rightarrow> nat" where
  "model_row_count data m = length (filter (\<lambda>d. row_model d = Some m) (atom_rows data))"

definition unparseable :: "string option \<Rightarrow> bool" where
  "unparseable v = (case v of None \<Rightarrow> False | Some s \<Rightarrow> py_int s = None)"

definition identity_check_fails :: "(string \<rightharpoonup> string) \<Rightarrow> bool" where
  "identity_check_fails d =
     ((d ''label_asym_id'' = None \<and> d ''auth_asym_id'' = None)
      \<or> (unparseable (d ''label_seq_id'') \<and> unparseable (d ''auth_seq_id''))
      \<or> (d ''label_comp_id'' = None \<and> d ''auth_comp_id'' = None))"

section \<open>Runs of equal keys\<close>

text \<open>
  The specification's reading of the grouper: the atom list cut into its maximal runs of
  equal keys, \<open>runs\<close>, and one residue per run, numbered from a start index,
  \<open>residues_of\<close>. \<open>adjacent_differ\<close> says that the key changes between one run and
  the next. \<open>label_auth_key\<close> is the key the specification names, without the model.
\<close>

fun runs :: "('a \<Rightarrow> 'k) \<Rightarrow> 'a list \<Rightarrow> 'a list list" where
  "runs key [] = []"
| "runs key (x # xs) =
     (case runs key xs of
        [] \<Rightarrow> [[x]]
      | r # rs \<Rightarrow> if key x = key (hd r) then (x # r) # rs else [x] # r # rs)"


fun residues_of :: "modification_table \<Rightarrow> int \<Rightarrow> 'c Atom3D list list \<Rightarrow> 'c Residue3D list" where
  "residues_of modified i [] = []"
| "residues_of modified i (r # rs) =
     close_residue modified i (atom_key (hd r)) r # residues_of modified (i + 1) rs"

definition label_auth_key :: "'c Atom3D \<Rightarrow> ResidueLabel option \<times> ResidueAuth option" where
  "label_auth_key atom = (atom_label atom, atom_auth atom)"

section \<open>Relations of an annotation, as the specification reads them\<close>

text \<open>
  \<open>adjacent_resolved\<close> walks the resolved tokens of a stack pair by pair;
  \<open>resolved_count\<close> is the number of tokens that resolved. \<open>resolve_pair\<close> is the base
  pair a declared pair gives when both descriptors and the code resolve. \<open>safe_code\<close>
  holds of a code that is absent, or a member name, or not listed by \<open>dir\<close> at all.
\<close>

fun adjacent_resolved :: "'r option list \<Rightarrow> 'r Stacking list" where
  "adjacent_resolved (a # b # rest) =
     (case (a, b) of
        (Some x, Some y) \<Rightarrow> [\<lparr>st_nt1 = x, st_nt2 = y, st_topology = None\<rparr>]
      | _ \<Rightarrow> []) @ adjacent_resolved (b # rest)"
| "adjacent_resolved _ = []"

definition resolved_count :: "'r option list \<Rightarrow> nat" where
  "resolved_count nts = length (filter (\<lambda>nt. nt \<noteq> None) nts)"

definition resolve_pair ::
  "('r \<Rightarrow> string) \<Rightarrow> (string \<times> 'lw) list \<Rightarrow> 'r list \<Rightarrow> dssr_pair \<Rightarrow> ('r, 'lw) BasePair option" where
  "resolve_pair full_name members structure3d pair =
     (case (match_dssr_name_to_residue full_name structure3d (pair_nt1 pair),
            match_dssr_name_to_residue full_name structure3d (pair_nt2 pair),
            Option.bind (pair_LW pair) (map_of members)) of
        (Some a, Some b, Some lw) \<Rightarrow> Some \<lparr>bp_nt1 = a, bp_nt2 = b, bp_lw = lw, bp_saenger = None\<rparr>
      | _ \<Rightarrow> None)"

definition safe_code :: "string list \<Rightarrow> (string \<times> 'lw) list \<Rightarrow> string option \<Rightarrow> bool" where
  "safe_code class_names members lw =
     (case lw of None \<Rightarrow> True
      | Some s \<Rightarrow> s \<in> set (map fst members) \<or> s \<notin> set (enum_dir class_names members))"

section \<open>Example inputs\<close>

text \<open>Atoms with integer coordinates, for the closed examples.\<close>

definition ex_auth :: "int \<Rightarrow> string \<Rightarrow> ResidueAuth" where
  "ex_auth number name =
     \<lparr>auth_chain = ''A'', auth_number = number, auth_icode = '' '', auth_name = name\<rparr>"

definition ex_atom :: "ResidueAuth \<Rightarrow> int \<Rightarrow> string \<Rightarrow> int Atom3D" where
  "ex_atom auth model name =
     \<lparr>atom_label = None, atom_auth = Some auth, atom_model = model, atom_name = name,
      atom_x = 0, atom_y = 0, atom_z = 0\<rparr>"



text \<open>
  Fixed-column lines: one atom with the alternate locations A and B, an atom with a blank
  indicator and integer coordinates (on which \<open>int\<close> and \<open>float\<close> agree, so that
  \<open>py_int\<close> stands for \<open>float\<close> in the closed examples), and a MODRES line.
\<close>

definition ex_line_A :: string where
  "ex_line_A = ''ATOM      1  P  A  G A   1       1.000   2.000   3.000''"

definition ex_line_B :: string where
  "ex_line_B = ''ATOM      2  P  B  G A   1       1.500   2.500   3.500''"

definition ex_line_blank :: string where
  "ex_line_blank = ''ATOM      3  P   7MG A   7           1       2       3''"

definition ex_modres :: string where
  "ex_modres = ''MODRES 1ABC 7MG A    7    G''"

definition ex_pdb_atom :: "int Atom3D" where
  "ex_pdb_atom =
     \<lparr>atom_label = None, atom_auth = Some (ex_auth 7 ''MG''), atom_model = 1, atom_name = ''P'',
      atom_x = 1, atom_y = 2, atom_z = 3\<rparr>"

text \<open>
  Tag-based documents: attribute lists of the atom table (complete, without the
  insertion code, without the label sequence number, without the label chain), a
  container built from an attribute list, atom rows and modified-residue rows, a file of
  four atom rows, three of model 1 and one of model 2, and a file whose atom table holds
  one row twice.
\<close>

definition ex_attrs :: "string list" where
  "ex_attrs = [''label_asym_id'', ''label_seq_id'', ''label_comp_id'', ''auth_asym_id'',
               ''auth_seq_id'', ''auth_comp_id'', ''pdbx_PDB_ins_code'', ''pdbx_PDB_model_num'',
               ''label_atom_id'', ''Cartn_x'', ''Cartn_y'', ''Cartn_z'']"

definition ex_attrs_no_ins_code :: "string list" where
  "ex_attrs_no_ins_code = [''label_asym_id'', ''label_seq_id'', ''label_comp_id'', ''auth_asym_id'',
               ''auth_seq_id'', ''auth_comp_id'', ''pdbx_PDB_model_num'',
               ''label_atom_id'', ''Cartn_x'', ''Cartn_y'', ''Cartn_z'']"

definition ex_attrs_no_label_seq :: "string list" where
  "ex_attrs_no_label_seq = [''label_asym_id'', ''label_comp_id'', ''auth_asym_id'',
               ''auth_seq_id'', ''auth_comp_id'', ''pdbx_PDB_ins_code'', ''pdbx_PDB_model_num'',
               ''label_atom_id'', ''Cartn_x'', ''Cartn_y'', ''Cartn_z'']"

definition ex_attrs_no_label_chain :: "string list" where
  "ex_attrs_no_label_chain = [''label_seq_id'', ''label_comp_id'', ''auth_asym_id'',
               ''auth_seq_id'', ''auth_comp_id'', ''pdbx_PDB_ins_code'', ''pdbx_PDB_model_num'',
               ''label_atom_id'', ''Cartn_x'', ''Cartn_y'', ''Cartn_z'']"

definition ex_cif :: "string list \<Rightarrow> string list list \<Rightarrow> string list list \<Rightarrow> container list" where
  "ex_cif attrs rows mod_rows =
     [\<lparr>atom_site = Some \<lparr>attribute_list = attrs, row_list = rows\<rparr>,
       pdbx_struct_mod_residue =
         (if mod_rows = [] then None
          else Some \<lparr>attribute_list = [''label_asym_id'', ''label_comp_id'', ''label_seq_id'',
                                       ''auth_asym_id'', ''auth_comp_id'', ''auth_seq_id'',
                                       ''PDB_ins_code'', ''parent_comp_id''],
                      row_list = mod_rows\<rparr>)\<rparr>]"

definition ex_rows :: "string list list" where
  "ex_rows =
     [[''A'', ''1'', ''G'', ''A'', ''1'', ''G'', ''?'', ''1'', ''P'', ''1'', ''2'', ''3''],
      [''A'', ''1'', ''G'', ''A'', ''1'', ''G'', ''?'', ''1'', ''OP1'', ''2'', ''3'', ''4''],
      [''A'', ''2'', ''C'', ''A'', ''2'', ''C'', ''?'', ''1'', ''P'', ''5'', ''6'', ''7''],
      [''A'', ''1'', ''G'', ''A'', ''1'', ''G'', ''?'', ''2'', ''P'', ''1'', ''2'', ''4'']]"

definition ex_cif_file :: text_io where
  "ex_cif_file = \<lparr>file_lines = [''data_ex'', ''loop_'', ''_atom_site.label_asym_id''],
                  file_data = ex_cif ex_attrs ex_rows []\<rparr>"

definition ex_dup_file :: text_io where
  "ex_dup_file = \<lparr>file_lines = [''data_ex'', ''loop_'', ''_atom_site.label_asym_id''],
                  file_data = ex_cif ex_attrs
                    [[''A'', ''1'', ''G'', ''A'', ''1'', ''G'', ''?'', ''1'', ''P'', ''1'', ''2'', ''3''],
                     [''A'', ''1'', ''G'', ''A'', ''1'', ''G'', ''?'', ''1'', ''P'', ''1'', ''2'', ''3'']]
                    []\<rparr>"

definition ex_cif_atom :: "int \<Rightarrow> string \<Rightarrow> int \<Rightarrow> string \<Rightarrow> int \<Rightarrow> int \<Rightarrow> int \<Rightarrow> int Atom3D" where
  "ex_cif_atom number name model atom x y z =
     \<lparr>atom_label = Some \<lparr>label_chain = ''A'', label_number = number, label_name = name\<rparr>,
      atom_auth = Some \<lparr>auth_chain = ''A'', auth_number = number, auth_icode = ''?'',
                        auth_name = name\<rparr>,
      atom_model = model, atom_name = atom, atom_x = x, atom_y = y, atom_z = z\<rparr>"

text \<open>
  An annotation: residues given by their full names, the member names of
  \<open>LeontisWesthof\<close>, and a document with one entry, for model 1.
\<close>

definition ex_full_name :: "string \<Rightarrow> string" where
  "ex_full_name residue = residue"

definition ex_structure :: "string list" where
  "ex_structure = [''A.G1'', ''A.C2'', ''A.U3'']"

definition ex_members :: "(string \<times> string) list" where
  "ex_members = map (\<lambda>n. (n, n))
     [''cWW'', ''cWH'', ''cWS'', ''cHW'', ''cHH'', ''cHS'', ''cSW'', ''cSH'', ''cSS'',
      ''tWW'', ''tWH'', ''tWS'', ''tHW'', ''tHH'', ''tHS'', ''tSW'', ''tSH'', ''tSS'']"

definition ex_dssr :: "dssr_pair list \<Rightarrow> dssr_stack list \<Rightarrow> dssr_document" where
  "ex_dssr ps ss =
     \<lparr>doc_models = Some [\<lparr>result_model = Some 1,
                          result_parameters = Some \<lparr>dssr_pairs = Some ps, dssr_stacks = Some ss\<rparr>\<rparr>],
      doc_top = \<lparr>dssr_pairs = None, dssr_stacks = None\<rparr>\<rparr>"

section \<open>Residue indices\<close>

lemma group_loop_indices:
  "\<exists>n. map res_index (group_loop modified k ra rs i xs) =
     map res_index rs @ map (\<lambda>j. i + int j) [0..<Suc n]"
proof (induction xs arbitrary: k ra rs i)
  case Nil
  have "map res_index (group_loop modified k ra rs i []) =
     map res_index rs @ map (\<lambda>j. i + int j) [0..<Suc 0]"
    by (simp add: close_residue_def Let_def)
  then show ?case by blast
next
  case (Cons x xs)
  show ?case
  proof (cases "atom_key x = k")
    case True
    then show ?thesis using Cons.IH [of k "ra @ [x]" rs i] by simp
  next
    case False
    let ?rs' = "rs @ [close_residue modified i k ra]"
    let ?g = "group_loop modified (atom_key x) [x] ?rs' (i + 1) xs"
    obtain n where n: "map res_index ?g = map res_index ?rs' @ map (\<lambda>j. (i + 1) + int j) [0..<Suc n]"
      using Cons.IH [of "atom_key x" "[x]" ?rs' "i + 1"] by blast
    have idx: "res_index (close_residue modified i k ra) = i"
      by (simp add: close_residue_def Let_def)
    have "map (\<lambda>j. i + int j) [0..<Suc (Suc n)] = i # map (\<lambda>j. (i + 1) + int j) [0..<Suc n]"
      by (subst map_upt_Suc) (simp add: add.assoc)
    with n idx have "map res_index ?g = map res_index rs @ map (\<lambda>j. i + int j) [0..<Suc (Suc n)]"
      by simp
    with False show ?thesis by (metis group_loop.simps(2))
  qed
qed

text \<open>
  C2: the i-th residue of the grouper's output has index i, counting from 1, for every
  atom list and modification table; the empty atom list gives the empty residue
  sequence.
\<close>

theorem group_atoms_indices:
  "map res_index (residues (group_atoms atoms modified)) =
     map (\<lambda>j. 1 + int j) [0..<length (residues (group_atoms atoms modified))]
   \<and> residues (group_atoms [] modified) = []"
proof (cases atoms)
  case Nil
  then show ?thesis by (simp add: group_atoms_def)
next
  case (Cons a rest)
  obtain n where n: "map res_index (group_loop modified (atom_key a) [a] [] 1 rest) =
      map (\<lambda>j. 1 + int j) [0..<Suc n]"
    using group_loop_indices [of modified "atom_key a" "[a]" "[]" 1 rest] by auto
  then have "length (group_loop modified (atom_key a) [a] [] 1 rest) = Suc n"
    by (metis length_map length_upt diff_zero)
  with n Cons show ?thesis
    by (simp add: group_atoms_def)
qed

section \<open>The grouper cuts the atom list into runs\<close>

lemma runs_Nil_iff: "runs key xs = [] \<longleftrightarrow> xs = []"
  by (cases xs) (auto split: list.splits)


lemma hd_hd_runs: "xs \<noteq> [] \<Longrightarrow> hd (hd (runs key xs)) = hd xs"
  by (cases xs) (auto split: list.splits)

lemma concat_runs: "concat (runs key xs) = xs"
  by (induction xs) (auto split: list.splits)



text \<open>A block of equal keys followed by nothing or by another key is one run.\<close>

lemma runs_block:
  assumes "ra \<noteq> []" "\<forall>a\<in>set ra. key a = k" "ys = [] \<or> key (hd ys) \<noteq> k"
  shows "runs key (ra @ ys) = ra # runs key ys"
  using assms
proof (induction ra)
  case Nil
  then show ?case by simp
next
  case (Cons a ra)
  show ?case
  proof (cases ra)
    case Nil
    show ?thesis
    proof (cases ys)
      case Nil
      with \<open>ra = []\<close> show ?thesis by simp
    next
      case (Cons y ys')
      then have "runs key ys \<noteq> []" using runs_Nil_iff [of key ys] by blast
      then obtain r rs where r: "runs key ys = r # rs" by (cases "runs key ys") auto
      have "hd r = y" using hd_hd_runs [of ys key] r Cons by simp
      with r Cons Cons.prems \<open>ra = []\<close> show ?thesis by auto
    qed
  next
    case (Cons b rb)
    have IH: "runs key (ra @ ys) = ra # runs key ys"
      using Cons.IH Cons.prems Cons by simp
    have "hd ra = b" using Cons by simp
    with IH Cons.prems Cons show ?thesis by simp
  qed
qed

lemma group_loop_runs:
  assumes "ra \<noteq> []" "\<forall>a\<in>set ra. atom_key a = k"
  shows "group_loop modified k ra rs i xs = rs @ residues_of modified i (runs atom_key (ra @ xs))"
  using assms
proof (induction xs arbitrary: k ra rs i)
  case Nil
  have "runs atom_key (ra @ []) = ra # runs atom_key []"
    using runs_block [of ra atom_key k "[]"] Nil by simp
  moreover have "atom_key (hd ra) = k" using Nil by simp
  ultimately show ?case by simp
next
  case (Cons x xs)
  show ?case
  proof (cases "atom_key x = k")
    case True
    have "group_loop modified k (ra @ [x]) rs i xs =
        rs @ residues_of modified i (runs atom_key ((ra @ [x]) @ xs))"
      using Cons.IH [of "ra @ [x]" k rs i] Cons.prems True by simp
    with True show ?thesis by simp
  next
    case False
    have blk: "runs atom_key (ra @ x # xs) = ra # runs atom_key (x # xs)"
      using runs_block [of ra atom_key k "x # xs"] Cons.prems False by simp
    have hd: "atom_key (hd ra) = k" using Cons.prems by simp
    have "group_loop modified (atom_key x) [x] (rs @ [close_residue modified i k ra]) (i + 1) xs =
        (rs @ [close_residue modified i k ra]) @
          residues_of modified (i + 1) (runs atom_key ([x] @ xs))"
      using Cons.IH [of "[x]" "atom_key x" "rs @ [close_residue modified i k ra]" "i + 1"] by simp
    with False blk hd show ?thesis by simp
  qed
qed

lemma group_atoms_runs:
  "residues (group_atoms atoms modified) = residues_of modified 1 (runs atom_key atoms)"
proof (cases atoms)
  case Nil
  then show ?thesis by (simp add: group_atoms_def)
next
  case (Cons a rest)
  have "group_loop modified (atom_key a) [a] [] 1 rest =
      [] @ residues_of modified 1 (runs atom_key ([a] @ rest))"
    by (rule group_loop_runs) simp_all
  with Cons show ?thesis by (simp add: group_atoms_def)
qed




lemma runs_cong:
  assumes "\<And>x y. x \<in> set xs \<Longrightarrow> y \<in> set xs \<Longrightarrow> (key1 x = key1 y) = (key2 x = key2 y)"
  shows "runs key1 xs = runs key2 xs"
  using assms
proof (induction xs)
  case Nil
  show ?case by simp
next
  case (Cons x xs)
  have IH: "runs key1 xs = runs key2 xs" using Cons by simp
  show ?case
  proof (cases "runs key2 xs")
    case Nil
    with IH show ?thesis by simp
  next
    case (Cons r rs)
    then have "xs \<noteq> []" by auto
    then have "hd r = hd xs" using hd_hd_runs [of xs key2] Cons by simp
    with \<open>xs \<noteq> []\<close> have "hd r \<in> set xs" by simp
    then have "(key1 x = key1 (hd r)) = (key2 x = key2 (hd r))"
      using Cons.prems by simp
    with IH Cons show ?thesis by simp
  qed
qed

lemma runs_label_auth:
  assumes "\<forall>x \<in> set atoms. atom_model x = m"
  shows "runs atom_key atoms = runs label_auth_key atoms"
  using assms by (intro runs_cong) (auto simp: atom_key_def label_auth_key_def)




text \<open>
  The list \<open>read_3d_structure\<close> groups is the parsed atom list filtered to the
  requested model, so every structure it returns is cut as the theorem says.
\<close>

lemma read_3d_structure_partition:
  assumes "read_3d_structure pf f m = Inr s"
  shows "\<exists>atoms modified.
           (if is_cif f then parse_cif pf (file_data f) else parse_pdb pf (file_lines f)) =
             Inr (atoms, modified) \<and>
           residues s =
             residues_of modified 1
               (runs label_auth_key (filter (\<lambda>atom. atom_model atom = m) atoms))"
proof -
  from assms obtain atoms modified where p:
    "(if is_cif f then parse_cif pf (file_data f) else parse_pdb pf (file_lines f)) =
       Inr (atoms, modified)"
    "s = group_atoms (filter (\<lambda>atom. atom_model atom = m) atoms) modified"
    by (auto simp: read_3d_structure_def bindE_def split: sum.splits)
  have "\<forall>x \<in> set (filter (\<lambda>atom. atom_model atom = m) atoms). atom_model x = m" by simp
  from group_atoms_runs [of "filter (\<lambda>atom. atom_model atom = m) atoms" modified]
    runs_label_auth [OF this] p
  show ?thesis by auto
qed

text \<open>
  The model number is the third component of the key in \<open>group_atoms\<close>. It plays no part
  on a list of one model; on a list that mixed two models, equal label and auth would
  not keep two atoms together.
\<close>

lemma group_atoms_two_models:
  "label_auth_key (ex_atom (ex_auth 1 ''G'') 1 ''P'') = label_auth_key (ex_atom (ex_auth 1 ''G'') 2 ''OP1'')
   \<and> map res_atoms (residues (group_atoms
        [ex_atom (ex_auth 1 ''G'') 1 ''P'', ex_atom (ex_auth 1 ''G'') 2 ''OP1''] Map.empty)) =
     [{ex_atom (ex_auth 1 ''G'') 1 ''P''}, {ex_atom (ex_auth 1 ''G'') 2 ''OP1''}]"
  by (simp add: group_atoms_def atom_key_def label_auth_key_def ex_atom_def close_residue_def Let_def)

section \<open>Residue names: the priority\<close>





section \<open>The fixed-column parser, line by line\<close>

lemma bindE_Inr_iff: "bindE r f = Inr v \<longleftrightarrow> (\<exists>x. r = Inr x \<and> f x = Inr v)"
  by (cases r) (auto simp: bindE_def)

lemma bindE_Inl: "bindE (Inl e) f = Inl e"
  by (simp add: bindE_def)

lemma bindE_Inr: "bindE (Inr x) f = f x"
  by (simp add: bindE_def)

lemma bindE_assoc: "bindE (bindE r f) g = bindE r (\<lambda>x. bindE (f x) g)"
  by (cases r) (auto simp: bindE_def)

lemma startswith_hd: "startswith line (c # p) \<Longrightarrow> line \<noteq> [] \<and> hd line = c"
  by (cases line) (auto simp: startswith_def)

lemma startswith_nth: "startswith line p \<Longrightarrow> i < length p \<Longrightarrow> line ! i = p ! i"
  by (metis nth_take startswith_def)

lemma atom_line_not_model: "is_atom_line line \<Longrightarrow> \<not> startswith line ''MODEL''"
  unfolding is_atom_line_def by (auto dest!: startswith_hd)

lemma modres_line_not_others:
  "startswith line ''MODRES'' \<Longrightarrow> \<not> startswith line ''MODEL'' \<and> \<not> is_atom_line line"
proof -
  assume m: "startswith line ''MODRES''"
  have 0: "line ! 0 = CHR ''M''" using startswith_nth [OF m, of 0] by simp
  have 3: "line ! 3 = CHR ''R''" using startswith_nth [OF m, of 3] by simp
  have "\<not> startswith line ''MODEL''"
    using startswith_nth [of line "''MODEL''" 3] 3 by auto
  moreover have "\<not> startswith line ''ATOM''"
    using startswith_nth [of line "''ATOM''" 0] 0 by auto
  moreover have "\<not> startswith line ''HETATM''"
    using startswith_nth [of line "''HETATM''" 0] 0 by auto
  ultimately show ?thesis by (simp add: is_atom_line_def)
qed

lemma pdb_line_skip:
  assumes "is_atom_line line" "char_at line 16 = Inr alt" "alt \<noteq> '' ''"
  shows "pdb_line pf line st = Inr st"
proof -
  obtain model atoms modified where st: "st = (model, atoms, modified)" by (cases st) auto
  show ?thesis
    using assms atom_line_not_model [OF assms(1)]
    by (simp add: pdb_line_def st is_atom_line_def bindE_Inr)
qed

lemma pdb_line_atom:
  assumes "is_atom_line line" "char_at line 16 = Inr '' ''"
    "pdb_line pf line (model, atoms, modified) = Inr st'"
  shows "\<exists>chain number icode x y z.
           char_at line 21 = Inr chain \<and> int_of (strip (slice 22 26 line)) = Inr number \<and>
           char_at line 26 = Inr icode \<and>
           float_of pf (strip (slice 30 38 line)) = Inr x \<and>
           float_of pf (strip (slice 38 46 line)) = Inr y \<and>
           float_of pf (strip (slice 46 54 line)) = Inr z \<and>
           st' = (model,
                  atoms @ [\<lparr>atom_label = None,
                            atom_auth = Some \<lparr>auth_chain = chain, auth_number = number,
                                              auth_icode = icode,
                                              auth_name = strip (slice 18 20 line)\<rparr>,
                            atom_model = model, atom_name = strip (slice 12 16 line),
                            atom_x = x, atom_y = y, atom_z = z\<rparr>],
                  modified)"
  using assms atom_line_not_model [OF assms(1)]
  by (simp add: pdb_line_def is_atom_line_def bindE_Inr bindE_Inr_iff Let_def) blast

lemma pdb_line_modres:
  assumes "startswith line ''MODRES''" "pdb_line pf line (model, atoms, modified) = Inr st'"
  shows "\<exists>chain number icode.
           char_at line 16 = Inr chain \<and> int_of (strip (slice 18 22 line)) = Inr number \<and>
           char_at line 23 = Inr icode \<and>
           st' = (model, atoms,
                  modified(KAuth \<lparr>auth_chain = chain, auth_number = number, auth_icode = icode,
                                  auth_name = slice 12 15 line\<rparr> \<mapsto> strip (slice 24 27 line)))"
  using assms modres_line_not_others [OF assms(1)]
  by (simp add: pdb_line_def is_atom_line_def bindE_Inr_iff Let_def) blast

lemma pdb_line_model:
  assumes "startswith line ''MODEL''" "pdb_line pf line (model, atoms, modified) = Inr st'"
  shows "\<exists>m. st' = (m, atoms, modified)"
  using assms by (auto simp: pdb_line_def bindE_Inr_iff)

lemma pdb_line_other:
  assumes "\<not> startswith line ''MODEL''" "\<not> is_atom_line line" "\<not> startswith line ''MODRES''"
  shows "pdb_line pf line st = Inr st"
  using assms by (cases st) (simp add: pdb_line_def is_atom_line_def)

lemma pdb_lines_append:
  "pdb_lines pf (xs @ ys) st = bindE (pdb_lines pf xs st) (pdb_lines pf ys)"
proof (induction xs arbitrary: st)
  case Nil
  show ?case by (simp add: bindE_Inr)
next
  case (Cons a xs)
  show ?case by (cases "pdb_line pf a st") (simp_all add: bindE_def Cons.IH)
qed

lemma parse_pdb_skip:
  assumes "is_atom_line line" "char_at line 16 = Inr alt" "alt \<noteq> '' ''"
  shows "parse_pdb pf (pre @ line # post) = parse_pdb pf (pre @ post)"
proof -
  have "pdb_lines pf (line # post) = pdb_lines pf post"
  proof
    fix st :: "'a pdb_state"
    show "pdb_lines pf (line # post) st = pdb_lines pf post st"
      using pdb_line_skip [OF assms, of pf st] by (simp add: bindE_Inr)
  qed
  then show ?thesis by (simp add: parse_pdb_def pdb_lines_append)
qed

lemma length_strip_le: "length (strip s) \<le> length s"
proof -
  have "length (strip s) \<le> length (dropWhile is_space s)"
    unfolding strip_def using length_dropWhile_le [of is_space "rev (dropWhile is_space s)"]
    by simp
  also have "\<dots> \<le> length s" by (rule length_dropWhile_le)
  finally show ?thesis .
qed

lemma length_atom_residue_name: "length (strip (slice 18 20 line)) \<le> 2"
proof -
  have "length (slice 18 20 line) \<le> 2" by (simp add: slice_def)
  with length_strip_le [of "slice 18 20 line"] show ?thesis by linarith
qed

lemma length_modres_name: "char_at line 16 = Inr c \<Longrightarrow> length (slice 12 15 line) = 3"
  by (auto simp: char_at_def slice_def split: if_splits)

lemma pdb_line_atom_alt:
  assumes "is_atom_line line" "pdb_line pf line st = Inr st'"
  shows "\<exists>alt. char_at line 16 = Inr alt"
  using assms atom_line_not_model [OF assms(1)]
  by (cases st) (auto simp: pdb_line_def is_atom_line_def bindE_Inr_iff)

lemma pdb_line_inv:
  assumes inv: "pdb_inv L st" and mem: "line \<in> L" and step: "pdb_line pf line st = Inr st'"
  shows "pdb_inv L st'"
proof -
  obtain model atoms modified where st: "st = (model, atoms, modified)" by (cases st) auto
  consider (model) "startswith line ''MODEL''"
    | (atom) "is_atom_line line"
    | (modres) "startswith line ''MODRES''"
    | (other) "\<not> startswith line ''MODEL''" "\<not> is_atom_line line" "\<not> startswith line ''MODRES''"
    by blast
  then show ?thesis
  proof cases
    case model
    then obtain m where "st' = (m, atoms, modified)"
      using pdb_line_model step st by blast
    with inv st show ?thesis by (simp add: pdb_inv_def)
  next
    case atom
    obtain alt where alt: "char_at line 16 = Inr alt"
      using pdb_line_atom_alt [OF atom step] by blast
    show ?thesis
    proof (cases "alt = '' ''")
      case False
      then have "st' = st" using pdb_line_skip [OF atom alt, of pf st] step by simp
      with inv show ?thesis by simp
    next
      case True
      then obtain a where a: "st' = (model, atoms @ [a], modified)" "atom_label a = None"
        "\<exists>au. atom_auth a = Some au \<and> auth_name au = strip (slice 18 20 line)"
        using pdb_line_atom [OF atom, of pf model atoms modified st'] alt step st by auto
      with inv st atom mem show ?thesis by (auto simp: pdb_inv_def)
    qed
  next
    case modres
    then obtain chain number icode where m: "char_at line 16 = Inr chain"
      "st' = (model, atoms,
              modified(KAuth \<lparr>auth_chain = chain, auth_number = number, auth_icode = icode,
                              auth_name = slice 12 15 line\<rparr> \<mapsto> strip (slice 24 27 line)))"
      using pdb_line_modres [OF modres, of pf model atoms modified st'] step st by blast
    have "length (slice 12 15 line) = 3" using length_modres_name m(1) by blast
    with inv st m(2) modres mem show ?thesis by (auto simp: pdb_inv_def)
  next
    case other
    then have "st' = st" using pdb_line_other [of line pf st] step by simp
    with inv show ?thesis by simp
  qed
qed

lemma pdb_lines_inv:
  "pdb_inv L st \<Longrightarrow> set ls \<subseteq> L \<Longrightarrow> pdb_lines pf ls st = Inr st' \<Longrightarrow> pdb_inv L st'"
proof (induction ls arbitrary: st)
  case Nil
  then show ?case by simp
next
  case (Cons l ls)
  from Cons.prems(3) obtain st1 where 1: "pdb_line pf l st = Inr st1" "pdb_lines pf ls st1 = Inr st'"
    by (auto simp: bindE_Inr_iff)
  have "pdb_inv L st1" using pdb_line_inv [OF Cons.prems(1) _ 1(1)] Cons.prems(2) by simp
  then show ?case using Cons.IH [OF _ _ 1(2)] Cons.prems(2) by simp
qed

lemma parse_pdb_inv:
  assumes "parse_pdb pf lines = Inr (atoms, modified)"
  shows "\<exists>model. pdb_inv (set lines) (model, atoms, modified)"
proof -
  from assms obtain model where "pdb_lines pf lines (1, [], Map.empty) = Inr (model, atoms, modified)"
    by (auto simp: parse_pdb_def bindE_Inr_iff)
  moreover have "pdb_inv (set lines) (1, ([] :: 'a Atom3D list), Map.empty)"
    by (simp add: pdb_inv_def)
  ultimately have "pdb_inv (set lines) (model, atoms, modified)"
    using pdb_lines_inv [of "set lines" _ lines pf] by blast
  then show ?thesis by blast
qed

text \<open>
  C10: when \<open>parse_pdb\<close> succeeds, the auth residue name of each atom is the stripped
  slice [18:20) of an ATOM or HETATM line, at most two characters long; the residue name
  in each key of the modification table is the unstripped slice [12:15) of a MODRES line
  (three characters, since the line reached index 16); an entry whose residue name
  differs from the atom's is not the atom's entry. The two strings differ in length, so
  no entry is found for any atom, and the resolved name is the atom's own residue name.
\<close>

theorem pdb_residue_names:
  assumes "parse_pdb pf lines = Inr (atoms, modified)"
  shows "(\<forall>a \<in> set atoms. \<exists>l \<in> set lines. \<exists>au.
            (startswith l ''ATOM'' \<or> startswith l ''HETATM'') \<and> atom_label a = None \<and>
            atom_auth a = Some au \<and> auth_name au = strip (slice 18 20 l) \<and>
            length (auth_name au) \<le> 2)
       \<and> (\<forall>k \<in> dom modified. \<exists>l \<in> set lines. \<exists>au.
            startswith l ''MODRES'' \<and> k = KAuth au \<and> auth_name au = slice 12 15 l \<and>
            length (auth_name au) = 3)
       \<and> (\<forall>a \<in> set atoms. \<forall>au m. atom_auth a = Some au \<and> KAuth m \<in> dom modified \<and>
            auth_name au \<noteq> auth_name m \<longrightarrow> auth_key (atom_auth a) \<noteq> KAuth m)
       \<and> (\<forall>a \<in> set atoms. auth_key (atom_auth a) \<notin> dom modified \<and>
            get_residue_name (atom_auth a) (atom_label a) modified = auth_name (the (atom_auth a)))"
proof -
  obtain model where inv: "pdb_inv (set lines) (model, atoms, modified)"
    using parse_pdb_inv [OF assms] by blast
  have 1: "\<forall>a \<in> set atoms. \<exists>l \<in> set lines. \<exists>au.
            (startswith l ''ATOM'' \<or> startswith l ''HETATM'') \<and> atom_label a = None \<and>
            atom_auth a = Some au \<and> auth_name au = strip (slice 18 20 l) \<and>
            length (auth_name au) \<le> 2"
  proof
    fix a assume "a \<in> set atoms"
    with inv obtain l au where l: "l \<in> set lines" "is_atom_line l" "atom_label a = None"
      "atom_auth a = Some au" "auth_name au = strip (slice 18 20 l)"
      unfolding pdb_inv_def by auto
    moreover have "length (auth_name au) \<le> 2" using l(5) length_atom_residue_name by simp
    ultimately show "\<exists>l \<in> set lines. \<exists>au.
            (startswith l ''ATOM'' \<or> startswith l ''HETATM'') \<and> atom_label a = None \<and>
            atom_auth a = Some au \<and> auth_name au = strip (slice 18 20 l) \<and>
            length (auth_name au) \<le> 2"
      unfolding is_atom_line_def by blast
  qed
  have 2: "\<forall>k \<in> dom modified. \<exists>l \<in> set lines. \<exists>au.
            startswith l ''MODRES'' \<and> k = KAuth au \<and> auth_name au = slice 12 15 l \<and>
            length (auth_name au) = 3"
    using inv unfolding pdb_inv_def by simp
  have 3: "\<forall>a \<in> set atoms. \<forall>au m. atom_auth a = Some au \<and> KAuth m \<in> dom modified \<and>
            auth_name au \<noteq> auth_name m \<longrightarrow> auth_key (atom_auth a) \<noteq> KAuth m"
    by (auto simp: auth_key_def)
  have 4: "\<forall>a \<in> set atoms. auth_key (atom_auth a) \<notin> dom modified \<and>
            get_residue_name (atom_auth a) (atom_label a) modified = auth_name (the (atom_auth a))"
  proof
    fix a assume a: "a \<in> set atoms"
    from 1 a obtain au where au: "atom_label a = None" "atom_auth a = Some au"
      "length (auth_name au) \<le> 2" by blast
    have notin: "auth_key (atom_auth a) \<notin> dom modified"
    proof
      assume "auth_key (atom_auth a) \<in> dom modified"
      with 2 obtain m where "auth_key (atom_auth a) = KAuth m" "length (auth_name m) = 3" by blast
      with au show False by (simp add: auth_key_def)
    qed
    have "KNone \<notin> dom modified" using 2 by blast
    with notin au show "auth_key (atom_auth a) \<notin> dom modified \<and>
            get_residue_name (atom_auth a) (atom_label a) modified = auth_name (the (atom_auth a))"
      by (simp add: get_residue_name_def label_key_def)
  qed
  from 1 2 3 4 show ?thesis by blast
qed

text \<open>Evaluation of the parser on the example lines.\<close>

lemmas py_eval =
  py_int_def py_unsigned_def int_strip_def is_int_space_def int_whitespace_def
  int_max_str_digits_def strip_def is_space_def whitespace_def is_digit_def digit_val_def slice_def
  char_at_def startswith_def int_of_def float_of_def bindE_def

lemma pdb_line_ex_blank:
  "pdb_line py_int ex_line_blank (1, atoms, modified) = Inr (1, atoms @ [ex_pdb_atom], modified)"
  by (simp add: pdb_line_def ex_line_blank_def ex_pdb_atom_def ex_auth_def py_eval)

lemma pdb_line_ex_modres:
  "pdb_line py_int ex_modres (1, atoms, modified) =
     Inr (1, atoms, modified(KAuth (ex_auth 7 ''7MG'') \<mapsto> ''G''))"
  by (simp add: pdb_line_def ex_modres_def ex_auth_def py_eval)

lemma pdb_line_ex_A: "pdb_line py_int ex_line_A (1, atoms, modified) = Inr (1, atoms, modified)"
  by (simp add: pdb_line_def ex_line_A_def py_eval)

lemma pdb_line_ex_B: "pdb_line py_int ex_line_B (1, atoms, modified) = Inr (1, atoms, modified)"
  by (simp add: pdb_line_def ex_line_B_def py_eval)

lemma parse_pdb_ex_modres:
  "parse_pdb py_int [ex_modres, ex_line_blank] =
     Inr ([ex_pdb_atom], [KAuth (ex_auth 7 ''7MG'') \<mapsto> ''G''])"
  by (simp add: parse_pdb_def pdb_line_ex_modres pdb_line_ex_blank bindE_Inr)

theorem pdb_residue_names_witness:
  "parse_pdb py_int [ex_modres, ex_line_blank] =
     Inr ([ex_pdb_atom], [KAuth (ex_auth 7 ''7MG'') \<mapsto> ''G''])
   \<and> atom_auth ex_pdb_atom = Some (ex_auth 7 ''MG'')
   \<and> strip (slice 18 20 ex_line_blank) = ''MG''
   \<and> slice 12 15 ex_modres = ''7MG''
   \<and> auth_key (atom_auth ex_pdb_atom) \<noteq> KAuth (ex_auth 7 ''7MG'')
   \<and> get_residue_name (atom_auth ex_pdb_atom) (atom_label ex_pdb_atom)
        [KAuth (ex_auth 7 ''7MG'') \<mapsto> ''G''] = ''MG''"
proof -
  note inst = pdb_residue_names [OF parse_pdb_ex_modres]
  have a: "atom_auth ex_pdb_atom = Some (ex_auth 7 ''MG'')"
    by (simp add: ex_pdb_atom_def)
  have b: "strip (slice 18 20 ex_line_blank) = ''MG''"
    by (simp add: ex_line_blank_def py_eval)
  have c: "slice 12 15 ex_modres = ''7MG''"
    by (simp add: ex_modres_def slice_def)
  have d: "auth_key (atom_auth ex_pdb_atom) \<noteq> KAuth (ex_auth 7 ''7MG'')"
    using inst a by (auto simp: ex_auth_def)
  have e: "get_residue_name (atom_auth ex_pdb_atom) (atom_label ex_pdb_atom)
        [KAuth (ex_auth 7 ''7MG'') \<mapsto> ''G''] = ''MG''"
    using inst a by (simp add: ex_auth_def)
  from parse_pdb_ex_modres a b c d e show ?thesis by blast
qed

text \<open>
  C6, as amended: an ATOM or HETATM line is skipped unless its alternate-location
  indicator (index 16) is blank. A line with any other indicator, that of the first
  conformer included, leaves the state of the parser as it was: the parse and the
  structure read are those of the file without the line. A line with a blank indicator
  that is parsed adds exactly one atom, of the current model.
\<close>

theorem pdb_alternate_location:
  assumes "startswith line ''ATOM'' \<or> startswith line ''HETATM''"
  shows "(\<forall>alt. char_at line 16 = Inr alt \<and> alt \<noteq> '' '' \<longrightarrow>
            pdb_line pf line st = Inr st
            \<and> parse_pdb pf (pre @ line # post) = parse_pdb pf (pre @ post)
            \<and> read_3d_structure pf \<lparr>file_lines = pre @ line # post, file_data = data\<rparr> m =
                read_3d_structure pf \<lparr>file_lines = pre @ post, file_data = data\<rparr> m)
       \<and> (\<forall>model atoms modified st'.
            char_at line 16 = Inr '' '' \<and> pdb_line pf line (model, atoms, modified) = Inr st' \<longrightarrow>
            (\<exists>atom. st' = (model, atoms @ [atom], modified) \<and> atom_model atom = model))"
proof -
  have al: "is_atom_line line" using assms by (simp add: is_atom_line_def)
  have 1: "\<forall>alt. char_at line 16 = Inr alt \<and> alt \<noteq> '' '' \<longrightarrow>
            pdb_line pf line st = Inr st
            \<and> parse_pdb pf (pre @ line # post) = parse_pdb pf (pre @ post)
            \<and> read_3d_structure pf \<lparr>file_lines = pre @ line # post, file_data = data\<rparr> m =
                read_3d_structure pf \<lparr>file_lines = pre @ post, file_data = data\<rparr> m"
  proof (intro allI impI, elim conjE)
    fix alt assume alt: "char_at line 16 = Inr alt" "alt \<noteq> '' ''"
    have s: "pdb_line pf line st = Inr st" by (rule pdb_line_skip [OF al alt])
    have p: "parse_pdb pf (pre @ line # post) = parse_pdb pf (pre @ post)"
      by (rule parse_pdb_skip [OF al alt])
    have "\<not> startswith line ''_atom_site''"
      using assms startswith_nth [of line "''_atom_site''" 0]
        startswith_nth [of line "''ATOM''" 0] startswith_nth [of line "''HETATM''" 0] by auto
    then have "is_cif \<lparr>file_lines = pre @ line # post, file_data = data\<rparr> =
        is_cif \<lparr>file_lines = pre @ post, file_data = data\<rparr>"
      by (simp add: is_cif_def)
    with p have "read_3d_structure pf \<lparr>file_lines = pre @ line # post, file_data = data\<rparr> m =
                read_3d_structure pf \<lparr>file_lines = pre @ post, file_data = data\<rparr> m"
      by (simp add: read_3d_structure_def)
    with s p show "pdb_line pf line st = Inr st
            \<and> parse_pdb pf (pre @ line # post) = parse_pdb pf (pre @ post)
            \<and> read_3d_structure pf \<lparr>file_lines = pre @ line # post, file_data = data\<rparr> m =
                read_3d_structure pf \<lparr>file_lines = pre @ post, file_data = data\<rparr> m"
      by blast
  qed
  have 2: "\<forall>model atoms modified st'.
            char_at line 16 = Inr '' '' \<and> pdb_line pf line (model, atoms, modified) = Inr st' \<longrightarrow>
            (\<exists>atom. st' = (model, atoms @ [atom], modified) \<and> atom_model atom = model)"
  proof (intro allI impI, elim conjE)
    fix model atoms modified st'
    assume "char_at line 16 = Inr '' ''" "pdb_line pf line (model, atoms, modified) = Inr st'"
    from pdb_line_atom [OF al this]
    show "\<exists>atom. st' = (model, atoms @ [atom], modified) \<and> atom_model atom = model"
      by auto
  qed
  from 1 2 show ?thesis by blast
qed

theorem pdb_alternate_location_witness:
  "char_at ex_line_A 16 = Inr ''A''
   \<and> parse_pdb py_int [ex_line_A, ex_line_blank] = Inr ([ex_pdb_atom], Map.empty)
   \<and> char_at ex_line_blank 16 = Inr '' ''
   \<and> pdb_line py_int ex_line_blank (1, [], Map.empty) = Inr (1, [ex_pdb_atom], Map.empty)
   \<and> atom_model ex_pdb_atom = 1"
proof -
  have sa: "startswith ex_line_A ''ATOM'' \<or> startswith ex_line_A ''HETATM''"
    by (simp add: ex_line_A_def startswith_def)
  have sb: "startswith ex_line_blank ''ATOM'' \<or> startswith ex_line_blank ''HETATM''"
    by (simp add: ex_line_blank_def startswith_def)
  have a: "char_at ex_line_A 16 = Inr ''A''"
    by (simp add: ex_line_A_def char_at_def)
  have b: "char_at ex_line_blank 16 = Inr '' ''"
    by (simp add: ex_line_blank_def char_at_def)
  have "parse_pdb py_int ([] @ ex_line_A # [ex_line_blank]) = parse_pdb py_int ([] @ [ex_line_blank])"
    using pdb_alternate_location [OF sa, of py_int _ "[]" "[ex_line_blank]"] a by simp
  then have c: "parse_pdb py_int [ex_line_A, ex_line_blank] = Inr ([ex_pdb_atom], Map.empty)"
    by (simp add: parse_pdb_def pdb_line_ex_blank bindE_Inr)
  have d: "pdb_line py_int ex_line_blank (1, [], Map.empty) = Inr (1, [ex_pdb_atom], Map.empty)"
    using pdb_line_ex_blank [of "[]" Map.empty] by simp
  have "\<exists>atom. (1, [ex_pdb_atom], Map.empty) = (1 :: int, [] @ [atom], Map.empty :: modification_table)
          \<and> atom_model atom = 1"
    using pdb_alternate_location [OF sb, of py_int] b d by blast
  then have e: "atom_model ex_pdb_atom = 1" by simp
  from a b c d e show ?thesis by blast
qed

text \<open>
  The claim as stated fails: of the two conformers A and B of one atom, neither
  contributes an atom, so no conformer of the position is kept.
\<close>

theorem pdb_alternate_location_counterexample:
  "char_at ex_line_A 16 = Inr ''A'' \<and> char_at ex_line_B 16 = Inr ''B''
   \<and> parse_pdb py_int [ex_line_A, ex_line_B] = Inr ([], Map.empty)
   \<and> read_3d_structure py_int \<lparr>file_lines = [ex_line_A, ex_line_B], file_data = []\<rparr> 1 =
       Inr \<lparr>residues = []\<rparr>"
proof -
  have p: "parse_pdb py_int [ex_line_A, ex_line_B] = Inr ([], Map.empty)"
    by (simp add: parse_pdb_def pdb_line_ex_A pdb_line_ex_B bindE_Inr)
  have c: "\<not> is_cif \<lparr>file_lines = [ex_line_A, ex_line_B], file_data = []\<rparr>"
    by (simp add: is_cif_def ex_line_A_def ex_line_B_def startswith_def)
  show ?thesis
    using p c
    by (simp add: read_3d_structure_def bindE_Inr group_atoms_def ex_line_A_def ex_line_B_def
        char_at_def)
qed

section \<open>The tag-based parser: identifiers and atom counts\<close>

lemma parse_atom_row_missing_seq:
  "row_dict attrs row ''label_seq_id'' = None \<or> row_dict attrs row ''auth_seq_id'' = None \<Longrightarrow>
   parse_atom_row pf attrs row = Inl TypeError"
  by (auto simp: parse_atom_row_def try_parse_int_def bindE_def Let_def split: option.splits)

lemma parse_atom_row_check:
  assumes "identity_check_fails (row_dict attrs row)"
  shows "\<exists>e. parse_atom_row pf attrs row = Inl e"
proof (cases "row_dict attrs row ''label_seq_id'' = None \<or> row_dict attrs row ''auth_seq_id'' = None")
  case True
  then show ?thesis using parse_atom_row_missing_seq by blast
next
  case False
  then obtain s t where st: "row_dict attrs row ''label_seq_id'' = Some s"
    "row_dict attrs row ''auth_seq_id'' = Some t" by auto
  have "parse_atom_row pf attrs row = Inl RuntimeError"
    using assms st
    by (auto simp: identity_check_fails_def unparseable_def parse_atom_row_def try_parse_int_def
        bindE_def Let_def)
  then show ?thesis by blast
qed

lemma parse_atom_rows_fail:
  assumes "row \<in> set rows" "parse_atom_row pf attrs row = Inl e"
  shows "\<exists>e'. parse_atom_rows pf attrs rows acc = Inl e'"
  using assms
proof (induction rows arbitrary: acc)
  case Nil
  then show ?case by simp
next
  case (Cons r rows)
  show ?case
  proof (cases "parse_atom_row pf attrs r")
    case (Inl e1)
    then show ?thesis by (simp add: bindE_def)
  next
    case (Inr atom)
    with Cons.prems have "row \<in> set rows" by auto
    then obtain e' where "parse_atom_rows pf attrs rows (acc @ [atom]) = Inl e'"
      using Cons.IH Cons.prems(2) by blast
    with Inr show ?thesis by (simp add: bindE_def)
  qed
qed

text \<open>
  C3, as amended: an atom row in which the chain name is absent on both sides, or the
  residue number is present on both sides and \<open>int\<close> accepts neither text, or the
  residue name is absent on both sides makes the whole parse fail: \<open>parse_cif\<close>
  returns an error and no atom list or modification table.
\<close>

theorem parse_cif_identity_checks:
  assumes "data = d0 # ds" "atom_site d0 = Some cat" "row \<in> set (row_list cat)"
    "identity_check_fails (row_dict (attribute_list cat) row)"
  shows "\<exists>e. parse_cif pf data = Inl e"
proof -
  obtain e where "parse_atom_row pf (attribute_list cat) row = Inl e"
    using parse_atom_row_check [OF assms(4)] by blast
  then obtain e' where "parse_atom_rows pf (attribute_list cat) (row_list cat) [] = Inl e'"
    using parse_atom_rows_fail [OF assms(3)] by blast
  then show ?thesis using assms(1,2) by (simp add: parse_cif_def bindE_def)
qed

theorem parse_cif_identity_checks_witness:
  "identity_check_fails (row_dict ex_attrs
      [''A'', ''.'', ''G'', ''A'', ''?'', ''G'', ''?'', ''1'', ''P'', ''1'', ''2'', ''3''])
   \<and> (\<exists>e. parse_cif py_int
         (ex_cif ex_attrs
            [[''A'', ''1'', ''G'', ''A'', ''1'', ''G'', ''?'', ''1'', ''P'', ''1'', ''2'', ''3''],
             [''A'', ''.'', ''G'', ''A'', ''?'', ''G'', ''?'', ''1'', ''P'', ''1'', ''2'', ''3'']]
            []) = Inl e)"
proof -
  have f: "identity_check_fails (row_dict ex_attrs
      [''A'', ''.'', ''G'', ''A'', ''?'', ''G'', ''?'', ''1'', ''P'', ''1'', ''2'', ''3''])"
    by (simp add: identity_check_fails_def unparseable_def ex_attrs_def row_dict_def py_eval)
  let ?rows = "[[''A'', ''1'', ''G'', ''A'', ''1'', ''G'', ''?'', ''1'', ''P'', ''1'', ''2'', ''3''],
             [''A'', ''.'', ''G'', ''A'', ''?'', ''G'', ''?'', ''1'', ''P'', ''1'', ''2'', ''3'']]"
  let ?cat = "\<lparr>attribute_list = ex_attrs, row_list = ?rows\<rparr>"
  have "\<exists>e. parse_cif py_int (ex_cif ex_attrs ?rows []) = Inl e"
  proof (rule parse_cif_identity_checks)
    show "ex_cif ex_attrs ?rows [] = \<lparr>atom_site = Some ?cat, pdbx_struct_mod_residue = None\<rparr> # []"
      by (simp add: ex_cif_def)
    show "atom_site \<lparr>atom_site = Some ?cat, pdbx_struct_mod_residue = None\<rparr> = Some ?cat"
      by simp
    show "[''A'', ''.'', ''G'', ''A'', ''?'', ''G'', ''?'', ''1'', ''P'', ''1'', ''2'', ''3'']
        \<in> set (row_list ?cat)"
      by simp
    show "identity_check_fails (row_dict (attribute_list ?cat)
        [''A'', ''.'', ''G'', ''A'', ''?'', ''G'', ''?'', ''1'', ''P'', ''1'', ''2'', ''3''])"
      using f by simp
  qed
  with f show ?thesis by blast
qed

lemmas cif_eval =
  parse_cif_def parse_atom_row_def parse_mod_row_def row_dict_def try_parse_int_def
  make_label_def make_auth_def getitem_def label_key_def auth_key_def Let_def

text \<open>
  The claim as stated fails. An atom row with a dotted label sequence number and no
  insertion-code column passes the three checks with neither identifier complete, and a
  modified-residue row with no complete identifier is stored under the key \<open>None\<close>:
  the parse returns both.
\<close>

theorem parse_cif_incomplete_counterexample:
  "parse_cif py_int
     (ex_cif ex_attrs_no_ins_code [[''A'', ''.'', ''G'', ''A'', ''1'', ''G'', ''1'', ''P'', ''1'', ''2'', ''3'']]
        [[''.'', ''7MG'', ''.'', ''.'', ''7MG'', ''.'', ''?'', ''G'']]) =
   Inr ([\<lparr>atom_label = None, atom_auth = None, atom_model = 1, atom_name = ''P'',
          atom_x = 1, atom_y = 2, atom_z = 3\<rparr>],
        [KNone \<mapsto> ''n''])"
  by (simp add: ex_cif_def ex_attrs_no_ins_code_def cif_eval py_eval)

text \<open>
  C5, at the failing input: an atom table without the column \<open>label_seq_id\<close>. The
  claim has the row parsed with the label identifier absent; \<open>try_parse_int(None)\<close>
  raises TypeError and the parse fails. A table without the column \<open>label_asym_id\<close>
  is parsed as the claim says.
\<close>

theorem parse_cif_missing_label_seq:
  "parse_cif py_int
     (ex_cif ex_attrs_no_label_seq
        [[''A'', ''G'', ''A'', ''1'', ''G'', ''?'', ''1'', ''P'', ''1'', ''2'', ''3'']] []) =
   Inl TypeError
   \<and> parse_cif py_int
     (ex_cif ex_attrs_no_label_chain
        [[''1'', ''G'', ''A'', ''1'', ''G'', ''?'', ''1'', ''P'', ''1'', ''2'', ''3'']] []) =
   Inr ([\<lparr>atom_label = None,
          atom_auth = Some \<lparr>auth_chain = ''A'', auth_number = 1, auth_icode = ''?'',
                            auth_name = ''G''\<rparr>,
          atom_model = 1, atom_name = ''P'', atom_x = 1, atom_y = 2, atom_z = 3\<rparr>],
        Map.empty)"
  by (simp add: ex_cif_def ex_attrs_no_label_seq_def ex_attrs_no_label_chain_def cif_eval py_eval)

lemma parse_atom_row_model:
  "parse_atom_row pf attrs row = Inr a \<Longrightarrow> row_model (row_dict attrs row) = Some (atom_model a)"
  by (auto simp: parse_atom_row_def row_model_def bindE_def Let_def int_of_def
      split: sum.splits if_splits option.splits)

lemma parse_atom_rows_models:
  "parse_atom_rows pf attrs rows acc = Inr atoms \<Longrightarrow>
   \<exists>new. atoms = acc @ new \<and>
     map (\<lambda>a. Some (atom_model a)) new = map (\<lambda>r. row_model (row_dict attrs r)) rows"
proof (induction rows arbitrary: acc)
  case Nil
  then show ?case by simp
next
  case (Cons r rows)
  from Cons.prems obtain a where a: "parse_atom_row pf attrs r = Inr a"
    "parse_atom_rows pf attrs rows (acc @ [a]) = Inr atoms"
    by (cases "parse_atom_row pf attrs r") (auto simp: bindE_def)
  from Cons.IH [OF a(2)] obtain new where new: "atoms = (acc @ [a]) @ new"
    "map (\<lambda>a. Some (atom_model a)) new = map (\<lambda>r. row_model (row_dict attrs r)) rows"
    by blast
  have "atoms = acc @ (a # new)" using new(1) by simp
  moreover have "map (\<lambda>a. Some (atom_model a)) (a # new) =
      map (\<lambda>r. row_model (row_dict attrs r)) (r # rows)"
    using new(2) parse_atom_row_model [OF a(1)] by simp
  ultimately show ?case by blast
qed

lemma parse_cif_models:
  assumes "parse_cif pf data = Inr (atoms, modified)"
  shows "map (\<lambda>a. Some (atom_model a)) atoms = map row_model (atom_rows data)"
proof (cases data)
  case Nil
  with assms show ?thesis by (simp add: parse_cif_def atom_rows_def)
next
  case (Cons d0 ds)
  show ?thesis
  proof (cases "atom_site d0")
    case None
    with assms Cons show ?thesis
      by (auto simp: parse_cif_def atom_rows_def bindE_def split: sum.splits)
  next
    case (Some cat)
    with assms Cons have "parse_atom_rows pf (attribute_list cat) (row_list cat) [] = Inr atoms"
      by (auto simp: parse_cif_def bindE_def split: sum.splits)
    from parse_atom_rows_models [OF this] Some Cons show ?thesis
      by (simp add: atom_rows_def comp_def)
  qed
qed

lemma count_by_model:
  assumes "map (\<lambda>a. Some (atom_model a)) atoms = map row_model ds"
  shows "length (filter (\<lambda>a. atom_model a = m) atoms) =
         length (filter (\<lambda>d. row_model d = Some m) ds)"
proof -
  have "length (filter (\<lambda>a. atom_model a = m) atoms) =
      length (filter (\<lambda>v. v = Some m) (map (\<lambda>a. Some (atom_model a)) atoms))"
    by (simp add: filter_map comp_def)
  also have "\<dots> = length (filter (\<lambda>v. v = Some m) (map row_model ds))"
    using assms by simp
  also have "\<dots> = length (filter (\<lambda>d. row_model d = Some m) ds)"
    by (simp add: filter_map comp_def)
  finally show ?thesis .
qed

lemma res_atoms_residues_of: "map res_atoms (residues_of modified i rs) = map set rs"
  by (induction rs arbitrary: i) (simp_all add: close_residue_def Let_def)

lemma sum_card_runs_le: "sum_list (map (\<lambda>r. card (set r)) rs) \<le> length (concat rs)"
  by (induction rs) (simp_all add: add_mono card_length)

lemma sum_card_runs_eq:
  "\<forall>r \<in> set rs. distinct r \<Longrightarrow> sum_list (map (\<lambda>r. card (set r)) rs) = length (concat rs)"
  by (induction rs) (simp_all add: distinct_card)

lemma group_atoms_atom_count:
  "sum_list (map (\<lambda>r. card (res_atoms r)) (residues (group_atoms atoms modified))) =
   sum_list (map (\<lambda>r. card (set r)) (runs atom_key atoms))"
proof -
  have "map (\<lambda>r. card (res_atoms r)) (residues (group_atoms atoms modified)) =
      map card (map res_atoms (residues_of modified 1 (runs atom_key atoms)))"
    by (simp add: group_atoms_runs comp_def)
  also have "\<dots> = map (\<lambda>r. card (set r)) (runs atom_key atoms)"
    by (simp add: res_atoms_residues_of comp_def)
  finally show ?thesis by simp
qed

lemma parse_atom_rows_row_atoms:
  "parse_atom_rows pf attrs rows acc = Inr atoms \<Longrightarrow>
   \<exists>new. atoms = acc @ new \<and> map Inr new = map (parse_atom_row pf attrs) rows"
proof (induction rows arbitrary: acc)
  case Nil
  then show ?case by simp
next
  case (Cons r rows)
  from Cons.prems obtain a where a: "parse_atom_row pf attrs r = Inr a"
    "parse_atom_rows pf attrs rows (acc @ [a]) = Inr atoms"
    by (cases "parse_atom_row pf attrs r") (auto simp: bindE_def)
  from Cons.IH [OF a(2)] obtain new where new: "atoms = (acc @ [a]) @ new"
    "map Inr new = map (parse_atom_row pf attrs) rows"
    by blast
  have "atoms = acc @ (a # new)" using new(1) by simp
  moreover have "map Inr (a # new) = map (parse_atom_row pf attrs) (r # rows)"
    using new(2) a(1) by simp
  ultimately show ?case by blast
qed

lemma parse_cif_row_atoms:
  assumes "parse_cif pf data = Inr (atoms, modified)"
  shows "map Inr atoms = row_atoms pf data"
proof (cases data)
  case Nil
  with assms show ?thesis by (simp add: parse_cif_def row_atoms_def)
next
  case (Cons d0 ds)
  show ?thesis
  proof (cases "atom_site d0")
    case None
    with assms Cons show ?thesis
      by (auto simp: parse_cif_def row_atoms_def bindE_def split: sum.splits)
  next
    case (Some cat)
    with assms Cons have "parse_atom_rows pf (attribute_list cat) (row_list cat) [] = Inr atoms"
      by (auto simp: parse_cif_def bindE_def split: sum.splits)
    from parse_atom_rows_row_atoms [OF this] Some Cons show ?thesis
      by (simp add: row_atoms_def)
  qed
qed

lemma sum_card_runs_eq_iff:
  "sum_list (map (\<lambda>r. card (set r)) rs) = length (concat rs) \<longleftrightarrow> (\<forall>r \<in> set rs. distinct r)"
proof (induction rs)
  case Nil
  show ?case by simp
next
  case (Cons r rs)
  have le1: "card (set r) \<le> length r" by (rule card_length)
  have le2: "sum_list (map (\<lambda>r. card (set r)) rs) \<le> length (concat rs)"
    by (rule sum_card_runs_le)
  have "card (set r) + sum_list (map (\<lambda>r. card (set r)) rs) = length r + length (concat rs) \<longleftrightarrow>
      card (set r) = length r \<and> sum_list (map (\<lambda>r. card (set r)) rs) = length (concat rs)"
    using le1 le2 by linarith
  moreover have "card (set r) = length r \<longleftrightarrow> distinct r"
    using card_distinct distinct_card by blast
  ultimately show ?case using Cons.IH by simp
qed

text \<open>
  C7, as amended: for a tag-based input that \<open>parse_cif\<close> accepts, the atoms are the
  rows of the atom table parsed one by one, \<open>read_3d_structure\<close> returns a structure,
  and the sizes of the atom sets of its residues add up to at most the number of
  atom-table rows whose model number is the requested one; to exactly that number if and
  only if no residue of the requested model receives the same atom (identifiers, model,
  atom name and coordinates) from two rows.
\<close>

theorem cif_atom_count:
  assumes "is_cif f" "parse_cif pf (file_data f) = Inr (atoms, modified)"
  shows "map Inr atoms = row_atoms pf (file_data f)
       \<and> (\<exists>s. read_3d_structure pf f m = Inr s
            \<and> atom_total s \<le> model_row_count (file_data f) m
            \<and> (atom_total s = model_row_count (file_data f) m \<longleftrightarrow>
                 (\<forall>r \<in> set (runs atom_key (filter (\<lambda>a. atom_model a = m) atoms)). distinct r)))"
proof -
  let ?sel = "filter (\<lambda>a. atom_model a = m) atoms"
  have r: "read_3d_structure pf f m = Inr (group_atoms ?sel modified)"
    using assms(1,2) by (simp add: read_3d_structure_def bindE_def)
  have total: "atom_total (group_atoms ?sel modified) =
      sum_list (map (\<lambda>r. card (set r)) (runs atom_key ?sel))"
    by (simp add: atom_total_def group_atoms_atom_count)
  have count: "model_row_count (file_data f) m = length (concat (runs atom_key ?sel))"
    unfolding model_row_count_def
    using count_by_model [OF parse_cif_models [OF assms(2)], of m] by (simp add: concat_runs)
  have le: "atom_total (group_atoms ?sel modified) \<le> model_row_count (file_data f) m"
    unfolding total count by (rule sum_card_runs_le)
  have eq: "atom_total (group_atoms ?sel modified) = model_row_count (file_data f) m \<longleftrightarrow>
      (\<forall>r \<in> set (runs atom_key ?sel). distinct r)"
    unfolding total count by (rule sum_card_runs_eq_iff)
  from r le eq parse_cif_row_atoms [OF assms(2)] show ?thesis by blast
qed

lemma parse_cif_ex:
  "parse_cif py_int (file_data ex_cif_file) =
     Inr ([ex_cif_atom 1 ''G'' 1 ''P'' 1 2 3, ex_cif_atom 1 ''G'' 1 ''OP1'' 2 3 4,
           ex_cif_atom 2 ''C'' 1 ''P'' 5 6 7, ex_cif_atom 1 ''G'' 2 ''P'' 1 2 4], Map.empty)"
  by (simp add: ex_cif_file_def ex_cif_def ex_attrs_def ex_rows_def ex_cif_atom_def
      cif_eval py_eval)

theorem cif_atom_count_witness:
  "is_cif ex_cif_file
   \<and> model_row_count (file_data ex_cif_file) 1 = 3
   \<and> (\<exists>s. read_3d_structure py_int ex_cif_file 1 = Inr s \<and> atom_total s = 3)"
proof -
  have c: "is_cif ex_cif_file"
    by (simp add: is_cif_def ex_cif_file_def startswith_def)
  have d: "\<forall>r \<in> set (runs atom_key (filter (\<lambda>a. atom_model a = 1)
      [ex_cif_atom 1 ''G'' 1 ''P'' 1 2 3, ex_cif_atom 1 ''G'' 1 ''OP1'' 2 3 4,
       ex_cif_atom 2 ''C'' 1 ''P'' 5 6 7, ex_cif_atom 1 ''G'' 2 ''P'' 1 2 4])). distinct r"
    by (simp add: ex_cif_atom_def atom_key_def)
  have n: "model_row_count (file_data ex_cif_file) 1 = 3"
    by (simp add: model_row_count_def atom_rows_def row_model_def ex_cif_file_def ex_cif_def
        ex_attrs_def ex_rows_def row_dict_def py_eval)
  from cif_atom_count [OF c parse_cif_ex, of 1] d n c show ?thesis by auto
qed

text \<open>
  The claim as stated fails: a document whose atom table holds the same row twice is
  accepted, and its two rows of model 1 give one residue with one atom.
\<close>

theorem cif_atom_count_counterexample:
  "is_cif ex_dup_file
   \<and> read_3d_structure py_int ex_dup_file 1 =
       Inr \<lparr>residues =
         [\<lparr>res_index = 1, res_name = ''G'', res_model = 1,
           res_label = Some \<lparr>label_chain = ''A'', label_number = 1, label_name = ''G''\<rparr>,
           res_auth = Some \<lparr>auth_chain = ''A'', auth_number = 1, auth_icode = ''?'',
                            auth_name = ''G''\<rparr>,
           res_atoms = {ex_cif_atom 1 ''G'' 1 ''P'' 1 2 3}\<rparr>]\<rparr>
   \<and> atom_total \<lparr>residues =
         [\<lparr>res_index = 1, res_name = ''G'', res_model = 1,
           res_label = Some \<lparr>label_chain = ''A'', label_number = 1, label_name = ''G''\<rparr>,
           res_auth = Some \<lparr>auth_chain = ''A'', auth_number = 1, auth_icode = ''?'',
                            auth_name = ''G''\<rparr>,
           res_atoms = {ex_cif_atom 1 ''G'' 1 ''P'' 1 2 3}\<rparr>]\<rparr> = 1
   \<and> model_row_count (file_data ex_dup_file) 1 = 2"
proof -
  have c: "is_cif ex_dup_file"
    by (simp add: is_cif_def ex_dup_file_def startswith_def)
  have p: "parse_cif py_int (file_data ex_dup_file) =
      Inr ([ex_cif_atom 1 ''G'' 1 ''P'' 1 2 3, ex_cif_atom 1 ''G'' 1 ''P'' 1 2 3], Map.empty)"
    by (simp add: ex_dup_file_def ex_cif_def ex_attrs_def ex_cif_atom_def cif_eval py_eval)
  have r: "read_3d_structure py_int ex_dup_file 1 =
       Inr \<lparr>residues =
         [\<lparr>res_index = 1, res_name = ''G'', res_model = 1,
           res_label = Some \<lparr>label_chain = ''A'', label_number = 1, label_name = ''G''\<rparr>,
           res_auth = Some \<lparr>auth_chain = ''A'', auth_number = 1, auth_icode = ''?'',
                            auth_name = ''G''\<rparr>,
           res_atoms = {ex_cif_atom 1 ''G'' 1 ''P'' 1 2 3}\<rparr>]\<rparr>"
    using c p
    by (simp add: read_3d_structure_def bindE_def group_atoms_def close_residue_def Let_def
        atom_key_def ex_cif_atom_def get_residue_name_def auth_key_def label_key_def)
  have n: "model_row_count (file_data ex_dup_file) 1 = 2"
    by (simp add: model_row_count_def atom_rows_def row_model_def ex_dup_file_def ex_cif_def
        ex_attrs_def row_dict_def py_eval)
  from c r n show ?thesis by (simp add: atom_total_def)
qed

section \<open>The annotation matcher\<close>

lemma stack_relations_Nil: "stack_relations [] = []"
  by (simp add: stack_relations_def)

lemma stack_relations_single: "stack_relations [a] = []"
  by (simp add: stack_relations_def)

lemma stack_relations_Cons2:
  "stack_relations (a # b # rest) =
     (if a \<noteq> None \<and> b \<noteq> None then [\<lparr>st_nt1 = the a, st_nt2 = the b, st_topology = None\<rparr>]
      else []) @ stack_relations (b # rest)"
proof -
  define body :: "'a option list \<Rightarrow> nat \<Rightarrow> 'a Stacking list" where
    "body = (\<lambda>nts i. let nt1 = nts ! (i - 1); nt2 = nts ! i
                      in if nt1 \<noteq> None \<and> nt2 \<noteq> None
                         then [\<lparr>st_nt1 = the nt1, st_nt2 = the nt2, st_topology = None\<rparr>]
                         else [])"
  have rel: "stack_relations nts = concat (map (body nts) [1..<length nts])" for nts
    by (simp add: stack_relations_def body_def)
  have "[Suc 0..<Suc (Suc (length rest))] = Suc 0 # [Suc (Suc 0)..<Suc (Suc (length rest))]"
    by (rule upt_conv_Cons) simp
  moreover have "map Suc [Suc 0..<Suc (length rest)] = [Suc (Suc 0)..<Suc (Suc (length rest))]"
    by (rule map_Suc_upt)
  ultimately have idx: "[1..<length (a # b # rest)] = 1 # map Suc [1..<length (b # rest)]"
    by simp
  have step: "body (a # b # rest) (Suc i) = body (b # rest) i"
    if "i \<in> set [1..<length (b # rest)]" for i
  proof -
    from that have "1 \<le> i" by (simp del: upt_Suc)
    then obtain k where "i = Suc k" by (cases i) auto
    then show ?thesis by (simp add: body_def)
  qed
  have "map (\<lambda>i. body (a # b # rest) (Suc i)) [1..<length (b # rest)] =
      map (body (b # rest)) [1..<length (b # rest)]"
    by (rule map_cong [OF refl step])
  then have "concat (map (body (a # b # rest)) (map Suc [1..<length (b # rest)])) =
      concat (map (body (b # rest)) [1..<length (b # rest)])"
    by (simp only: map_map comp_def)
  then have "stack_relations (a # b # rest) =
      body (a # b # rest) 1 @ stack_relations (b # rest)"
    by (simp only: rel idx list.map concat.simps)
  then show ?thesis by (simp add: body_def Let_def)
qed

lemma stack_relations_rec: "stack_relations nts = adjacent_resolved nts"
proof (induction nts rule: adjacent_resolved.induct)
  case (1 a b rest)
  then show ?case
    by (cases a; cases b) (simp_all add: stack_relations_Cons2)
qed (simp_all add: stack_relations_Nil stack_relations_single)

lemma adjacent_resolved_None: "adjacent_resolved (None # nts) = adjacent_resolved nts"
  by (cases nts) simp_all

lemma adjacent_resolved_leading: "adjacent_resolved (replicate i None @ nts) = adjacent_resolved nts"
  by (induction i) (simp_all add: adjacent_resolved_None)

lemma adjacent_resolved_unresolved: "adjacent_resolved (replicate j None) = []"
  using adjacent_resolved_leading [of j "[]"] by simp

lemma adjacent_resolved_trailing: "adjacent_resolved (Some x # replicate j None) = []"
proof (cases j)
  case 0
  then show ?thesis by simp
next
  case (Suc n)
  have "adjacent_resolved (Some x # None # replicate n None) =
      adjacent_resolved (replicate (Suc n) None)" by simp
  also have "\<dots> = []" by (rule adjacent_resolved_unresolved)
  finally show ?thesis using Suc by simp
qed

lemma adjacent_resolved_block:
  "adjacent_resolved (map Some xs @ replicate j None) =
     map (\<lambda>(a, b). \<lparr>st_nt1 = a, st_nt2 = b, st_topology = None\<rparr>) (zip xs (tl xs))"
proof (induction xs)
  case Nil
  show ?case by (simp add: adjacent_resolved_unresolved)
next
  case (Cons x xs)
  then show ?case
    by (cases xs) (simp_all add: adjacent_resolved_trailing)
qed

lemma adjacent_resolved_bound:
  "adjacent_resolved nts = [] \<or> length (adjacent_resolved nts) + 1 \<le> resolved_count nts"
proof (induction nts rule: adjacent_resolved.induct)
  case (1 a b rest)
  then show ?case
    by (cases a; cases b) (auto simp: resolved_count_def)
qed simp_all

lemma adjacent_resolved_mem:
  "s \<in> set (adjacent_resolved nts) \<longleftrightarrow>
     (\<exists>i. Suc i < length nts \<and> nts ! i = Some (st_nt1 s) \<and> nts ! Suc i = Some (st_nt2 s))
     \<and> st_topology s = None"
proof (induction nts rule: adjacent_resolved.induct)
  case (1 a b rest)
  have shift: "(\<exists>i. Suc i < length (a # b # rest) \<and> (a # b # rest) ! i = Some (st_nt1 s) \<and>
                  (a # b # rest) ! Suc i = Some (st_nt2 s)) \<longleftrightarrow>
        (a = Some (st_nt1 s) \<and> b = Some (st_nt2 s)) \<or>
        (\<exists>i. Suc i < length (b # rest) \<and> (b # rest) ! i = Some (st_nt1 s) \<and>
                  (b # rest) ! Suc i = Some (st_nt2 s))"
    (is "?L \<longleftrightarrow> ?A \<or> ?R")
  proof
    assume ?L
    then obtain i where i: "Suc i < length (a # b # rest)" "(a # b # rest) ! i = Some (st_nt1 s)"
      "(a # b # rest) ! Suc i = Some (st_nt2 s)" by blast
    show "?A \<or> ?R"
    proof (cases i)
      case 0
      with i show ?thesis by simp
    next
      case (Suc k)
      with i have "Suc k < length (b # rest) \<and> (b # rest) ! k = Some (st_nt1 s) \<and>
                  (b # rest) ! Suc k = Some (st_nt2 s)" by simp
      then show ?thesis by blast
    qed
  next
    assume "?A \<or> ?R"
    then show ?L
    proof
      assume ?A
      then have "Suc 0 < length (a # b # rest) \<and> (a # b # rest) ! 0 = Some (st_nt1 s) \<and>
                  (a # b # rest) ! Suc 0 = Some (st_nt2 s)" by simp
      then show ?L by blast
    next
      assume ?R
      then obtain i where "Suc i < length (b # rest)" "(b # rest) ! i = Some (st_nt1 s)"
        "(b # rest) ! Suc i = Some (st_nt2 s)" by blast
      then have "Suc (Suc i) < length (a # b # rest) \<and> (a # b # rest) ! Suc i = Some (st_nt1 s) \<and>
                  (a # b # rest) ! Suc (Suc i) = Some (st_nt2 s)" by simp
      then show ?L by blast
    qed
  qed
  have here: "s \<in> set (case (a, b) of
        (Some x, Some y) \<Rightarrow> [\<lparr>st_nt1 = x, st_nt2 = y, st_topology = None\<rparr>]
      | _ \<Rightarrow> []) \<longleftrightarrow> (a = Some (st_nt1 s) \<and> b = Some (st_nt2 s)) \<and> st_topology s = None"
    by (cases a; cases b) auto
  show ?case
    unfolding shift using 1 here by auto
qed simp_all

lemma stacks_loop_concat:
  "stacks_loop full_name structure3d stacks sts =
     sts @ concat (map (\<lambda>stack. stack_relations (stack_nts full_name structure3d stack)) stacks)"
  by (induction stacks arbitrary: sts) simp_all

lemma adjacent_resolved_zip:
  "adjacent_resolved nts =
     map (\<lambda>(a, b). \<lparr>st_nt1 = the a, st_nt2 = the b, st_topology = None\<rparr>)
       (filter (\<lambda>(a, b). a \<noteq> None \<and> b \<noteq> None) (zip nts (tl nts)))"
proof (induction nts rule: adjacent_resolved.induct)
  case (1 a b rest)
  then show ?case by (cases a; cases b) simp_all
qed simp_all

lemma adjacent_resolved_split:
  "adjacent_resolved (us @ None # vs) = adjacent_resolved us @ adjacent_resolved vs"
proof (induction us rule: adjacent_resolved.induct)
  case (1 a b rest)
  then show ?case by simp
qed (simp_all add: adjacent_resolved_None split: option.splits)

lemma resolved_count_append:
  "resolved_count (us @ vs) = resolved_count us + resolved_count vs"
  by (simp add: resolved_count_def)

lemma adjacent_resolved_gap:
  assumes "0 < resolved_count us" "0 < resolved_count vs"
  shows "length (adjacent_resolved (us @ None # vs)) + 2 \<le> resolved_count (us @ None # vs)"
proof -
  have u: "length (adjacent_resolved us) + 1 \<le> resolved_count us"
    using adjacent_resolved_bound [of us] assms(1) by auto
  have v: "length (adjacent_resolved vs) + 1 \<le> resolved_count vs"
    using adjacent_resolved_bound [of vs] assms(2) by auto
  have "resolved_count (us @ None # vs) = resolved_count us + resolved_count vs"
    by (simp add: resolved_count_def)
  with u v show ?thesis by (simp add: adjacent_resolved_split)
qed

lemma adjacent_resolved_all: 
  "length (adjacent_resolved (map Some xs)) = length xs - 1"
  using adjacent_resolved_block [of xs 0] by simp

text \<open>
  C9, as amended: the stacking relations of the payload are, stack after stack, those of
  the resolved token sequence of each stack, and for a token sequence \<open>nts\<close> there is
  one relation for every two adjacent tokens that both resolved, in order, and no
  other. When the k resolved tokens are contiguous (unresolved tokens only before and
  after them), the relations are the k - 1 pairs of neighbours, and there are never more
  than k - 1. An unresolved token cuts the sequence: the relations are those of the part
  before it and those of the part after it, so with resolved tokens on both sides there
  are at most k - 2, and exactly k - 2 when it is the only unresolved token.
\<close>

theorem stack_relations_adjacent_pairs:
  "stacks_loop full_name structure3d stacks sts =
     sts @ concat (map (\<lambda>stack. stack_relations (stack_nts full_name structure3d stack)) stacks)
   \<and> stack_relations nts =
        map (\<lambda>(a, b). \<lparr>st_nt1 = the a, st_nt2 = the b, st_topology = None\<rparr>)
          (filter (\<lambda>(a, b). a \<noteq> None \<and> b \<noteq> None) (zip nts (tl nts)))
   \<and> (s \<in> set (stack_relations nts) \<longleftrightarrow>
        (\<exists>i. Suc i < length nts \<and> nts ! i = Some (st_nt1 s) \<and> nts ! Suc i = Some (st_nt2 s))
        \<and> st_topology s = None)
   \<and> stack_relations (replicate p None @ map Some xs @ replicate q None) =
        map (\<lambda>(a, b). \<lparr>st_nt1 = a, st_nt2 = b, st_topology = None\<rparr>) (zip xs (tl xs))
   \<and> length (stack_relations (replicate p None @ map Some xs @ replicate q None)) = length xs - 1
   \<and> length (stack_relations nts) \<le> resolved_count nts - 1
   \<and> stack_relations (us @ None # vs) = stack_relations us @ stack_relations vs
   \<and> (0 < resolved_count us \<and> 0 < resolved_count vs \<longrightarrow>
        length (stack_relations (us @ None # vs)) + 2 \<le> resolved_count (us @ None # vs))
   \<and> length (stack_relations (map Some xs @ None # map Some ys)) =
        (length xs - 1) + (length ys - 1)"
proof -
  have blk: "stack_relations (replicate p None @ map Some xs @ replicate q None) =
        map (\<lambda>(a, b). \<lparr>st_nt1 = a, st_nt2 = b, st_topology = None\<rparr>) (zip xs (tl xs))"
    by (simp only: stack_relations_rec adjacent_resolved_leading adjacent_resolved_block)
  have len: "length (stack_relations (replicate p None @ map Some xs @ replicate q None)) =
      length xs - 1"
    unfolding blk by simp
  have bound: "length (stack_relations nts) \<le> resolved_count nts - 1"
    using adjacent_resolved_bound [of nts] by (auto simp: stack_relations_rec)
  have mem: "s \<in> set (stack_relations nts) \<longleftrightarrow>
        (\<exists>i. Suc i < length nts \<and> nts ! i = Some (st_nt1 s) \<and> nts ! Suc i = Some (st_nt2 s))
        \<and> st_topology s = None"
    using adjacent_resolved_mem [of s nts] by (simp only: stack_relations_rec)
  have zip: "stack_relations nts =
        map (\<lambda>(a, b). \<lparr>st_nt1 = the a, st_nt2 = the b, st_topology = None\<rparr>)
          (filter (\<lambda>(a, b). a \<noteq> None \<and> b \<noteq> None) (zip nts (tl nts)))"
    using adjacent_resolved_zip [of nts] by (simp only: stack_relations_rec)
  have split: "stack_relations (us @ None # vs) = stack_relations us @ stack_relations vs"
    by (simp only: stack_relations_rec adjacent_resolved_split)
  have gap: "0 < resolved_count us \<and> 0 < resolved_count vs \<longrightarrow>
        length (stack_relations (us @ None # vs)) + 2 \<le> resolved_count (us @ None # vs)"
    using adjacent_resolved_gap [of us vs] by (simp only: stack_relations_rec) blast
  have two: "length (stack_relations (map Some xs @ None # map Some ys)) =
        (length xs - 1) + (length ys - 1)"
    by (simp only: stack_relations_rec adjacent_resolved_split adjacent_resolved_all length_append)
  show ?thesis
    by (intro conjI stacks_loop_concat zip mem blk len bound split gap two)
qed

lemma stack_nts_ex_all:
  "stack_nts ex_full_name ex_structure \<lparr>stack_nts_long = Some ''1:A.G1,1:A.C2,1:A.U3''\<rparr> =
     [Some ''A.G1'', Some ''A.C2'', Some ''A.U3'']"
  by (simp add: stack_nts_def match_dssr_name_to_residue_def ex_full_name_def ex_structure_def)

lemma stack_nts_ex_gap:
  "stack_nts ex_full_name ex_structure \<lparr>stack_nts_long = Some ''1:A.G1,1:A.X9,1:A.C2''\<rparr> =
     [Some ''A.G1'', None, Some ''A.C2'']"
  by (simp add: stack_nts_def match_dssr_name_to_residue_def ex_full_name_def ex_structure_def)

theorem stack_relations_adjacent_pairs_witness:
  "stacks_loop ex_full_name ex_structure
     [\<lparr>stack_nts_long = Some ''1:A.G1,1:A.C2,1:A.U3''\<rparr>] [] =
     [\<lparr>st_nt1 = ''A.G1'', st_nt2 = ''A.C2'', st_topology = None\<rparr>,
      \<lparr>st_nt1 = ''A.C2'', st_nt2 = ''A.U3'', st_topology = None\<rparr>]
   \<and> 0 < resolved_count [Some ''A.G1''] \<and> 0 < resolved_count [Some ''A.C2'']
   \<and> length (stack_relations ([Some ''A.G1''] @ None # [Some ''A.C2''])) + 2 \<le>
       resolved_count ([Some ''A.G1''] @ None # [Some ''A.C2''])"
proof -
  note inst = stack_relations_adjacent_pairs
    [of _ _ _ _ _ _ 0 "[''A.G1'', ''A.C2'', ''A.U3'']" 0 "[Some ''A.G1'']" "[Some ''A.C2'']"]
  have "stack_relations (replicate 0 None @ map Some [''A.G1'', ''A.C2'', ''A.U3''] @ replicate 0 None) =
      map (\<lambda>(a, b). \<lparr>st_nt1 = a, st_nt2 = b, st_topology = None\<rparr>)
        (zip [''A.G1'', ''A.C2'', ''A.U3''] (tl [''A.G1'', ''A.C2'', ''A.U3'']))"
    using inst by blast
  then have r: "stack_relations [Some ''A.G1'', Some ''A.C2'', Some ''A.U3''] =
     [\<lparr>st_nt1 = ''A.G1'', st_nt2 = ''A.C2'', st_topology = None\<rparr>,
      \<lparr>st_nt1 = ''A.C2'', st_nt2 = ''A.U3'', st_topology = None\<rparr>]"
    by simp
  have a: "stacks_loop ex_full_name ex_structure
     [\<lparr>stack_nts_long = Some ''1:A.G1,1:A.C2,1:A.U3''\<rparr>] [] =
     [\<lparr>st_nt1 = ''A.G1'', st_nt2 = ''A.C2'', st_topology = None\<rparr>,
      \<lparr>st_nt1 = ''A.C2'', st_nt2 = ''A.U3'', st_topology = None\<rparr>]"
    by (simp add: stack_nts_ex_all r)
  have c: "0 < resolved_count [Some ''A.G1'']" "0 < resolved_count [Some ''A.C2'']"
    by (simp_all add: resolved_count_def)
  have "length (stack_relations ([Some ''A.G1''] @ None # [Some ''A.C2''])) + 2 \<le>
       resolved_count ([Some ''A.G1''] @ None # [Some ''A.C2''])"
    using inst c by blast
  with a c show ?thesis by blast
qed

text \<open>
  The claim as stated fails: a stack of three tokens whose middle one resolves to no
  residue has k = 2 resolved tokens and no relation.
\<close>

theorem stack_relations_gap_counterexample:
  "stack_nts ex_full_name ex_structure \<lparr>stack_nts_long = Some ''1:A.G1,1:A.X9,1:A.C2''\<rparr> =
     [Some ''A.G1'', None, Some ''A.C2'']
   \<and> resolved_count [Some ''A.G1'', None, Some ''A.C2''] = 2
   \<and> stacks_loop ex_full_name ex_structure
        [\<lparr>stack_nts_long = Some ''1:A.G1,1:A.X9,1:A.C2''\<rparr>] [] = []"
  by (simp add: stack_nts_ex_gap resolved_count_def stack_relations_rec)

text \<open>
  Pairs: when no code of the batch is one of the names that \<open>dir\<close> lists beside the
  members, the function returns, and the base pairs are those of the pairs whose two
  descriptors and code resolve, in order.
\<close>

lemma match_dssr_lw_safe:
  assumes "safe_code class_names members lw"
  shows "match_dssr_lw class_names members lw = Inr (Option.bind lw (map_of members))"
proof (cases lw)
  case None
  then show ?thesis by (simp add: match_dssr_lw_def)
next
  case (Some s)
  show ?thesis
  proof (cases "s \<in> set (map fst members)")
    case True
    then obtain v where "map_of members s = Some v"
      by (metis map_of_eq_None_iff not_None_eq set_map)
    with True Some show ?thesis by (simp add: match_dssr_lw_def enum_dir_def)
  next
    case False
    then have "map_of members s = None" by (simp add: map_of_eq_None_iff)
    moreover have "s \<notin> set (enum_dir class_names members)"
      using assms False Some by (simp add: safe_code_def)
    ultimately show ?thesis using Some by (simp add: match_dssr_lw_def)
  qed
qed

lemma pairs_loop_safe:
  assumes "\<forall>pair \<in> set ps. safe_code class_names members (pair_LW pair)"
  shows "pairs_loop full_name class_names members structure3d ps bps =
           Inr (bps @ List.map_filter (resolve_pair full_name members structure3d) ps)"
  using assms
proof (induction ps arbitrary: bps)
  case Nil
  show ?case by (simp add: List.map_filter_simps)
next
  case (Cons pair rest)
  have lw: "match_dssr_lw class_names members (pair_LW pair) =
      Inr (Option.bind (pair_LW pair) (map_of members))"
    using Cons.prems by (simp add: match_dssr_lw_safe)
  have rest: "\<forall>pair \<in> set rest. safe_code class_names members (pair_LW pair)"
    using Cons.prems by simp
  show ?case
    by (auto simp: lw Let_def bindE_def Cons.IH [OF rest] List.map_filter_simps resolve_pair_def
        split: option.splits)
qed

lemma dssr_lookup_miss_dropped:
  assumes "\<forall>pair \<in> set ps. safe_code class_names members (pair_LW pair)"
    "dssr_pairs (select_parameters dssr_json model) = Some ps"
    "dssr_stacks (select_parameters dssr_json model) = Some ss"
  shows "read_secondary_structure_from_dssr full_name class_names members structure3d model
           dssr_json =
           Inr \<lparr>base_pairs = List.map_filter (resolve_pair full_name members structure3d) ps,
                stackings = concat (map (\<lambda>stack. stack_relations
                                            (stack_nts full_name structure3d stack)) ss)\<rparr>"
  using assms
  by (simp add: read_secondary_structure_from_dssr_def Let_def pairs_loop_safe bindE_def
      stacks_loop_concat)

text \<open>
  C8, at the failing input: a pair whose code is \<open>__doc__\<close>, a name that \<open>dir\<close>
  lists in every Python version and that is no member. The subscript raises KeyError and the whole call fails,
  the resolvable first pair with it. With a code \<open>dir\<close> does not list, or a
  descriptor that names no residue, only that pair is dropped.
\<close>

theorem dssr_dunder_code_fatal:
  "read_secondary_structure_from_dssr ex_full_name class_names_py3 ex_members ex_structure 1
     (ex_dssr [\<lparr>pair_nt1 = Some ''1:A.G1'', pair_nt2 = Some ''1:A.C2'', pair_LW = Some ''cWW''\<rparr>,
               \<lparr>pair_nt1 = Some ''1:A.C2'', pair_nt2 = Some ''1:A.U3'', pair_LW = Some ''__doc__''\<rparr>]
        []) = Inl KeyError
   \<and> read_secondary_structure_from_dssr ex_full_name class_names_py3 ex_members ex_structure 1
     (ex_dssr [\<lparr>pair_nt1 = Some ''1:A.G1'', pair_nt2 = Some ''1:A.C2'', pair_LW = Some ''cWW''\<rparr>,
               \<lparr>pair_nt1 = Some ''1:A.C2'', pair_nt2 = Some ''1:A.U3'', pair_LW = Some ''xYZ''\<rparr>,
               \<lparr>pair_nt1 = Some ''1:A.X9'', pair_nt2 = Some ''1:A.U3'', pair_LW = Some ''cWW''\<rparr>]
        []) =
     Inr \<lparr>base_pairs = [\<lparr>bp_nt1 = ''A.G1'', bp_nt2 = ''A.C2'', bp_lw = ''cWW'', bp_saenger = None\<rparr>],
          stackings = []\<rparr>
   \<and> read_secondary_structure_from_dssr ex_full_name class_names_py311 ex_members ex_structure 1
     (ex_dssr [\<lparr>pair_nt1 = Some ''1:A.G1'', pair_nt2 = Some ''1:A.C2'', pair_LW = Some ''cWW''\<rparr>,
               \<lparr>pair_nt1 = Some ''1:A.C2'', pair_nt2 = Some ''1:A.U3'', pair_LW = Some ''__doc__''\<rparr>]
        []) = Inl KeyError
   \<and> read_secondary_structure_from_dssr ex_full_name class_names_py311 ex_members ex_structure 1
     (ex_dssr [\<lparr>pair_nt1 = Some ''1:A.G1'', pair_nt2 = Some ''1:A.C2'', pair_LW = Some ''cWW''\<rparr>,
               \<lparr>pair_nt1 = Some ''1:A.C2'', pair_nt2 = Some ''1:A.U3'', pair_LW = Some ''xYZ''\<rparr>,
               \<lparr>pair_nt1 = Some ''1:A.X9'', pair_nt2 = Some ''1:A.U3'', pair_LW = Some ''cWW''\<rparr>]
        []) =
     Inr \<lparr>base_pairs = [\<lparr>bp_nt1 = ''A.G1'', bp_nt2 = ''A.C2'', bp_lw = ''cWW'', bp_saenger = None\<rparr>],
          stackings = []\<rparr>"
  by (simp add: read_secondary_structure_from_dssr_def select_parameters_def ex_dssr_def
      match_dssr_lw_def enum_dir_def class_names_py3_def class_names_py311_def ex_members_def
      match_dssr_name_to_residue_def ex_full_name_def ex_structure_def bindE_def Let_def)

end
